theory Spec2Isabelle
  imports Complex_Main "HOL-Library.Multiset"
begin

section \<open>JavaScript numbers\<close>

text \<open>
  A JavaScript number is modelled by its value: NaN, the two infinities, or the rational
  value of a finite double. Negative zero is identified with zero: the handlers below
  only test a number for truthiness, compare it with 1 or 4, hand it to \<open>parseInt\<close>, or
  serialise it in the response, and none of these tells the two zeros apart (an infinite
  or NaN result is serialised as \<open>null\<close> whatever its sign).
\<close>

datatype jsnum = NaN | PInf | NInf | Fin rat

text \<open>The number of digits of \<open>n\<close> in base \<open>b\<close> (0 for \<open>n = 0\<close>).\<close>

function ndigits :: "nat \<Rightarrow> nat \<Rightarrow> nat" where
  "ndigits b n = (if n = 0 \<or> b < 2 then 0 else Suc (ndigits b (n div b)))"
  by pat_completeness auto
termination
  by (relation "measure snd") auto

declare ndigits.simps [simp del]

definition ipow :: "rat \<Rightarrow> int \<Rightarrow> rat" where
  "ipow b k = (if 0 \<le> k then b ^ nat k else 1 / b ^ nat (- k))"

text \<open>\<open>ilog b x\<close> is the integer \<open>k\<close> with \<open>b\<^sup>k \<le> x < b\<^sup>k\<^sup>+\<^sup>1\<close>, for \<open>x > 0\<close>.\<close>

definition ilog :: "nat \<Rightarrow> rat \<Rightarrow> int" where
  "ilog b x = (if 1 \<le> x then int (ndigits b (nat \<lfloor>x\<rfloor>)) - 1
               else - int (ndigits b (nat (\<lceil>1 / x\<rceil> - 1))))"

definition round_even :: "rat \<Rightarrow> int" where
  "round_even x =
     (let f = \<lfloor>x\<rfloor>; d = x - of_int f in
      if d < 1 / 2 then f
      else if 1 / 2 < d then f + 1
      else if even f then f else f + 1)"

text \<open>
  The result of every arithmetic operation and of every conversion from a string is the
  exact result rounded to the nearest double, ties to even: 53 significant bits, the
  least exponent \<open>-1022\<close> (below it the spacing stays \<open>2\<^sup>-\<^sup>1\<^sup>0\<^sup>7\<^sup>4\<close>), and an infinity
  from \<open>2\<^sup>1\<^sup>0\<^sup>2\<^sup>4\<close> on.
\<close>

definition round_double :: "rat \<Rightarrow> jsnum" where
  "round_double x =
     (if x = 0 then Fin 0
      else
        (let a = \<bar>x\<bar>;
             u = ipow 2 (max (ilog 2 a) (- 1022) - 52);
             v = of_int (round_even (a / u)) * u
         in if 2 ^ 1024 \<le> v then (if 0 < x then PInf else NInf)
            else Fin (if 0 < x then v else - v)))"

text \<open>\<open>x < y\<close> on numbers: false as soon as one side is NaN.\<close>

fun js_lt :: "jsnum \<Rightarrow> jsnum \<Rightarrow> bool" where
  "js_lt NaN y = False"
| "js_lt x NaN = False"
| "js_lt PInf y = False"
| "js_lt x NInf = False"
| "js_lt NInf y = True"
| "js_lt x PInf = True"
| "js_lt (Fin a) (Fin b) = (a < b)"

text \<open>\<open>x - y\<close>, \<open>x * y\<close> and \<open>x / y\<close> on numbers.\<close>

fun js_neg :: "jsnum \<Rightarrow> jsnum" where
  "js_neg NaN = NaN"
| "js_neg PInf = NInf"
| "js_neg NInf = PInf"
| "js_neg (Fin a) = Fin (- a)"

fun js_add :: "jsnum \<Rightarrow> jsnum \<Rightarrow> jsnum" where
  "js_add NaN y = NaN"
| "js_add x NaN = NaN"
| "js_add PInf NInf = NaN"
| "js_add NInf PInf = NaN"
| "js_add PInf y = PInf"
| "js_add NInf y = NInf"
| "js_add x PInf = PInf"
| "js_add x NInf = NInf"
| "js_add (Fin a) (Fin b) = round_double (a + b)"

definition js_sub :: "jsnum \<Rightarrow> jsnum \<Rightarrow> jsnum" where
  "js_sub x y = js_add x (js_neg y)"

text \<open>The sign of a number: \<open>1\<close>, \<open>-1\<close>, or \<open>0\<close> for a zero (NaN is handled before).\<close>

fun js_sign :: "jsnum \<Rightarrow> int" where
  "js_sign NaN = 0"
| "js_sign PInf = 1"
| "js_sign NInf = - 1"
| "js_sign (Fin a) = (if 0 < a then 1 else if a < 0 then - 1 else 0)"

definition signed_inf :: "int \<Rightarrow> jsnum" where
  "signed_inf sg = (if 0 < sg then PInf else if sg < 0 then NInf else NaN)"

fun js_mul :: "jsnum \<Rightarrow> jsnum \<Rightarrow> jsnum" where
  "js_mul NaN y = NaN"
| "js_mul x NaN = NaN"
| "js_mul (Fin a) (Fin b) = round_double (a * b)"
| "js_mul x y = signed_inf (js_sign x * js_sign y)"

text \<open>A finite non-zero number divided by zero is an infinity; its sign is the one the
  quotient of the signs would have with the zero taken as positive.\<close>

fun js_div :: "jsnum \<Rightarrow> jsnum \<Rightarrow> jsnum" where
  "js_div NaN y = NaN"
| "js_div x NaN = NaN"
| "js_div (Fin a) (Fin b) = (if b = 0 then signed_inf (js_sign (Fin a)) else round_double (a / b))"
| "js_div (Fin a) y = Fin 0"
| "js_div x (Fin b) = signed_inf (js_sign x * (if b < 0 then - 1 else 1))"
| "js_div x y = NaN"

text \<open>\<open>Math.ceil\<close>.\<close>

fun js_ceil :: "jsnum \<Rightarrow> jsnum" where
  "js_ceil (Fin a) = Fin (of_int \<lceil>a\<rceil>)"
| "js_ceil x = x"

text \<open>A number as \<open>res.json\<close> writes it: \<open>null\<close> unless it is finite.\<close>

fun json_num :: "jsnum \<Rightarrow> rat option" where
  "json_num (Fin a) = Some a"
| "json_num x = None"

section \<open>Strings to numbers\<close>

text \<open>
  Strings are sequences of ASCII characters. The white space that \<open>Number(s)\<close> and
  \<open>parseInt(s)\<close> skip is then tab, line feed, vertical tab, form feed, carriage return
  and space.
\<close>

definition is_ws :: "char \<Rightarrow> bool" where
  "is_ws c = (c \<in> set [CHR 0x09, CHR 0x0A, CHR 0x0B, CHR 0x0C, CHR 0x0D, CHR 0x20])"

definition trim :: "string \<Rightarrow> string" where
  "trim s = rev (dropWhile is_ws (rev (dropWhile is_ws s)))"

definition digit_of :: "char \<Rightarrow> nat option" where
  "digit_of c =
     (let n = (of_char c :: nat) in
      if 48 \<le> n \<and> n \<le> 57 then Some (n - 48)
      else if 97 \<le> n \<and> n \<le> 102 then Some (n - 87)
      else if 65 \<le> n \<and> n \<le> 70 then Some (n - 55)
      else None)"

definition is_digit :: "nat \<Rightarrow> char \<Rightarrow> bool" where
  "is_digit r c = (case digit_of c of None \<Rightarrow> False | Some d \<Rightarrow> d < r)"

definition digits_val :: "nat \<Rightarrow> string \<Rightarrow> nat" where
  "digits_val r ds = foldl (\<lambda>a c. a * r + (case digit_of c of None \<Rightarrow> 0 | Some d \<Rightarrow> d)) 0 ds"

text \<open>The exponent part of a decimal literal: nothing, or \<open>e\<close> or \<open>E\<close>, an optional sign
  and at least one digit. \<open>None\<close> when the text is neither.\<close>

definition exponent_part :: "string \<Rightarrow> int option" where
  "exponent_part s =
     (case s of
        [] \<Rightarrow> Some 0
      | c # r \<Rightarrow>
          if c = CHR ''e'' \<or> c = CHR ''E'' then
            (let (neg, ds) = (case r of
                                [] \<Rightarrow> (False, [])
                              | d # r' \<Rightarrow> if d = CHR ''-'' then (True, r')
                                          else if d = CHR ''+'' then (False, r')
                                          else (False, r))
             in if ds \<noteq> [] \<and> list_all (is_digit 10) ds
                then Some (if neg then - int (digits_val 10 ds) else int (digits_val 10 ds))
                else None)
          else None)"

text \<open>An unsigned decimal literal: digits, an optional fraction, an optional exponent,
  with at least one digit before or after the point.\<close>

definition unsigned_decimal :: "string \<Rightarrow> rat option" where
  "unsigned_decimal s =
     (let ip = takeWhile (is_digit 10) s; r1 = dropWhile (is_digit 10) s in
      case r1 of
        [] \<Rightarrow> if ip = [] then None else Some (of_nat (digits_val 10 ip))
      | c # r2 \<Rightarrow>
          if c = CHR ''.'' then
            (let fp = takeWhile (is_digit 10) r2; r3 = dropWhile (is_digit 10) r2 in
             if ip = [] \<and> fp = [] then None
             else (case exponent_part r3 of
                     None \<Rightarrow> None
                   | Some ex \<Rightarrow>
                       Some ((of_nat (digits_val 10 ip)
                              + of_nat (digits_val 10 fp) / 10 ^ length fp) * ipow 10 ex)))
          else if ip = [] then None
          else (case exponent_part r1 of
                  None \<Rightarrow> None
                | Some ex \<Rightarrow> Some (of_nat (digits_val 10 ip) * ipow 10 ex)))"

definition signed_decimal :: "bool \<Rightarrow> string \<Rightarrow> jsnum" where
  "signed_decimal neg s =
     (if s = ''Infinity'' then (if neg then NInf else PInf)
      else (case unsigned_decimal s of
              None \<Rightarrow> NaN
            | Some q \<Rightarrow> round_double (if neg then - q else q)))"

definition radix_literal :: "nat \<Rightarrow> string \<Rightarrow> jsnum" where
  "radix_literal r ds =
     (if ds \<noteq> [] \<and> list_all (is_digit r) ds then round_double (of_nat (digits_val r ds)) else NaN)"

text \<open>\<open>Number(s)\<close> for a string: the empty or blank string is 0; a hexadecimal, octal
  or binary literal takes no sign; anything that is not a numeric literal is NaN.\<close>

definition str_to_number :: "string \<Rightarrow> jsnum" where
  "str_to_number s =
     (let t = trim s; p = take 2 t in
      if t = [] then Fin 0
      else if p = ''0x'' \<or> p = ''0X'' then radix_literal 16 (drop 2 t)
      else if p = ''0o'' \<or> p = ''0O'' then radix_literal 8 (drop 2 t)
      else if p = ''0b'' \<or> p = ''0B'' then radix_literal 2 (drop 2 t)
      else if hd t = CHR ''-'' then signed_decimal True (tl t)
      else if hd t = CHR ''+'' then signed_decimal False (tl t)
      else signed_decimal False t)"

text \<open>\<open>parseInt(s)\<close> for a string, without a radix argument: leading white space, a
  sign, an optional \<open>0x\<close>, then the longest run of digits; NaN when there is none.\<close>

definition parse_int_str :: "string \<Rightarrow> jsnum" where
  "parse_int_str s =
     (let t = dropWhile is_ws s;
          neg = (t \<noteq> [] \<and> hd t = CHR ''-'');
          t1 = (if t \<noteq> [] \<and> (hd t = CHR ''-'' \<or> hd t = CHR ''+'') then tl t else t);
          hex = (take 2 t1 = ''0x'' \<or> take 2 t1 = ''0X'');
          r = (if hex then 16 else 10);
          z = takeWhile (is_digit r) (if hex then drop 2 t1 else t1)
      in if z = [] then NaN
         else round_double (if neg then - of_nat (digits_val r z) else of_nat (digits_val r z)))"

text \<open>
  \<open>parseInt(x)\<close> for a number goes through \<open>String(x)\<close>. From \<open>10\<^sup>-\<^sup>6\<close> (the double
  written \<open>0.000001\<close>, \<open>min_fixed\<close>) up to \<open>10\<^sup>2\<^sup>1\<close> the string is in positional notation
  and its integer part is \<open>x\<close> truncated. Outside, the string is in exponent notation and
  \<open>parseInt\<close> stops after its first digit: the leading digit of the shortest decimal
  that rounds to \<open>x\<close>, which \<open>shortest_lead\<close> searches with 1, 2, ... 17 digits.
\<close>

fun shortest_lead :: "rat \<Rightarrow> int \<Rightarrow> nat list \<Rightarrow> int" where
  "shortest_lead a n [] = 0"
| "shortest_lead a n (k # ks) =
     (let scale = ipow 10 (n - int k + 1);
          lo = \<lfloor>a / scale\<rfloor>; hi = lo + 1;
          dlo = a - of_int lo * scale; dhi = of_int hi * scale - a;
          oklo = (round_double (of_int lo * scale) = Fin a);
          okhi = (round_double (of_int hi * scale) = Fin a);
          s = (if oklo \<and> okhi
               then (if dlo < dhi then lo else if dhi < dlo then hi else if even lo then lo else hi)
               else if oklo then lo else hi)
      in if oklo \<or> okhi then (if s = 10 ^ k then 1 else s div 10 ^ (k - 1))
         else shortest_lead a n ks)"

definition min_fixed :: rat where
  "min_fixed = 4722366482869645 / 4722366482869645213696"

definition parse_int_num :: "jsnum \<Rightarrow> jsnum" where
  "parse_int_num x =
     (case x of
        Fin q \<Rightarrow>
          (let a = \<bar>q\<bar>;
               m = (if q = 0 then 0
                    else if min_fixed \<le> a \<and> a < 10 ^ 21 then \<lfloor>a\<rfloor>
                    else shortest_lead a (ilog 10 a) [1..<18])
           in Fin (of_int (if q < 0 then - m else m)))
      | _ \<Rightarrow> NaN)"

section \<open>JavaScript values\<close>

text \<open>
  The fields of \<open>req.body\<close> and \<open>req.query\<close> and the values handed to the ORM:
  what a JSON or form body can hold, and \<open>JUndefined\<close> for a field that is missing.
  A number is the double that the body parser made of the text.
\<close>

datatype jsval =
    JUndefined
  | JNull
  | JBool bool
  | JNum jsnum
  | JStr string
  | JArr "jsval list"
  | JObj "(string \<times> jsval) list"

text \<open>\<open>!v\<close> is \<open>\<not> truthy v\<close>.\<close>

fun truthy :: "jsval \<Rightarrow> bool" where
  "truthy JUndefined = False"
| "truthy JNull = False"
| "truthy (JBool b) = b"
| "truthy (JNum n) = (n \<noteq> NaN \<and> n \<noteq> Fin 0)"
| "truthy (JStr s) = (s \<noteq> [])"
| "truthy (JArr xs) = True"
| "truthy (JObj kvs) = True"

text \<open>
  Converting an object to a primitive calls its \<open>toString\<close>. A parsed object that has a
  key of that name holds a value there, not a function, and the conversion throws a
  TypeError; so does the conversion of an array that contains such an object.
\<close>

fun stringable :: "jsval \<Rightarrow> bool" where
  "stringable (JObj kvs) = (''toString'' \<notin> set (map fst kvs))"
| "stringable (JArr xs) = (\<forall>x \<in> set xs. stringable x)"
| "stringable v = True"

text \<open>
  \<open>Number(v)\<close> where it does not throw. An object is \<open>"[object Object]"\<close> and so NaN.
  An array is its elements joined by commas, \<open>null\<close> and \<open>undefined\<close> elements being
  empty: no element gives 0, one element gives what its string gives, more give NaN.
\<close>

fun to_number :: "jsval \<Rightarrow> jsnum" where
  "to_number JUndefined = NaN"
| "to_number JNull = Fin 0"
| "to_number (JBool b) = Fin (if b then 1 else 0)"
| "to_number (JNum n) = n"
| "to_number (JStr s) = str_to_number s"
| "to_number (JObj kvs) = NaN"
| "to_number (JArr []) = Fin 0"
| "to_number (JArr [JUndefined]) = Fin 0"
| "to_number (JArr [JNull]) = Fin 0"
| "to_number (JArr [JBool b]) = NaN"
| "to_number (JArr [x]) = to_number x"
| "to_number (JArr (x # y # zs)) = NaN"

text \<open>\<open>parseInt(v)\<close> where it does not throw: \<open>parseInt\<close> of the string of \<open>v\<close>. Of an
  array it reads the first element only, since the comma that follows stops it.\<close>

fun parse_int :: "jsval \<Rightarrow> jsnum" where
  "parse_int (JNum n) = parse_int_num n"
| "parse_int (JStr s) = parse_int_str s"
| "parse_int (JArr (JUndefined # xs)) = NaN"
| "parse_int (JArr (JNull # xs)) = NaN"
| "parse_int (JArr (x # xs)) = parse_int x"
| "parse_int v = NaN"

text \<open>\<open>s.split(c)\<close> for a one-character separator; the result is never empty.\<close>

fun split :: "char \<Rightarrow> string \<Rightarrow> string list" where
  "split c [] = [[]]"
| "split c (x # xs) =
     (if x = c then [] # split c xs
      else (case split c xs of
              [] \<Rightarrow> [[x]]
            | y # ys \<Rightarrow> (x # y) # ys))"

text \<open>\<open>a.pop()\<close> read as an expression: the last element, \<open>undefined\<close> on an empty array.\<close>

definition pop :: "'a list \<Rightarrow> 'a option" where
  "pop xs = (if xs = [] then None else Some (last xs))"

text \<open>\<open>url.split("/").pop()\<close>, as the list and delete handlers compute it.\<close>

definition url_filename :: "string \<Rightarrow> string" where
  "url_filename url = (case pop (split CHR ''/'' url) of None \<Rightarrow> [] | Some f \<Rightarrow> f)"

section \<open>Data model: the tables and the bucket\<close>

record soundboard =
  sb_id :: string
  sb_title :: jsval
  sb_text :: jsval
  audioUrl :: string
  fileName :: string
  createdByEmail :: jsval
  createdAt :: nat
  updatedAt :: nat

record history =
  h_email :: jsval
  h_id :: string
  h_title :: jsval

record message =
  message_id :: string
  m_email :: string
  m_message :: jsval
  created_at :: nat
  is_speech_to_text :: jsval

record profile =
  p_name :: jsval
  p_email :: jsval
  profile_picture_url :: "string option"

record feedback =
  f_id :: nat
  f_comment :: jsval
  f_rating :: jsval

record report =
  r_id :: string
  r_comment :: jsval
  r_createdAt :: nat
  r_updatedAt :: nat

datatype table = TSoundboard | THistory | TMessage | TProfile | TFeedback | TReport

text \<open>
  Every call that leaves the process, in the order the handler makes it: the speech
  service, the three bucket operations (by object key), and the four kinds of database
  call (by table).
\<close>

datatype call =
    Synthesize jsval
  | Save string
  | Exists string
  | Delete string
  | Select table
  | Insert table
  | Update table
  | Destroy table

record blob =
  content :: string
  contentType :: string

record world =
  soundboards :: "soundboard list"
  histories :: "history list"
  messages :: "message list"
  profiles :: "profile list"
  feedbacks :: "feedback list"
  reports :: "report list"
  bucket :: "string \<rightharpoonup> blob"
  calls :: "call list"

text \<open>
  What the handler cannot decide during one request: the configured bucket name, the
  identifiers it draws (\<open>uuidv4()\<close>, the default of an \<open>id\<close> column, the key of an
  inserted row), the clock, the audio the speech service returns, and whether each
  external call succeeds (\<open>ok\<close>) or throws.
\<close>

record env =
  bucket_name :: string
  uuid :: string
  row_uuid :: string
  insert_id :: nat
  now :: nat
  audio :: string
  ok :: "call \<Rightarrow> bool"

datatype error =
    SpeechError | StorageError | NameError | DbError | ValidationError | TypeError
  | InvalidValue | UploadError string

datatype payload =
    Msg string
  | Failed error
  | SoundboardCreated soundboard
  | SoundboardList "(soundboard \<times> bool) list"
  | HistoryCreated history
  | MessageCreated message
  | FeedbackCreated feedback
  | ReportPage nat "rat option" "rat option" "report list"

record response =
  status :: nat
  payload :: payload

definition respond :: "nat \<Rightarrow> payload \<Rightarrow> response" where
  "respond s p = \<lparr>status = s, payload = p\<rparr>"

definition attempt :: "call \<Rightarrow> world \<Rightarrow> world" where
  "attempt c w = w\<lparr>calls := calls w @ [c]\<rparr>"

section \<open>Helper functions of app.js\<close>

text \<open>\<open>generateSpeech\<close>: one call of the speech client; any failure is rethrown.\<close>

definition generateSpeech :: "env \<Rightarrow> jsval \<Rightarrow> world \<Rightarrow> world \<times> (error + string)" where
  "generateSpeech e text w =
     (let w1 = attempt (Synthesize text) w in
      if ok e (Synthesize text) then (w1, Inr (audio e)) else (w1, Inl SpeechError))"

text \<open>
  \<open>bucket.file(name)\<close> makes the handle of an object without calling the service, and
  throws when the name is empty. In the three places where app.js calls it, it stands
  before the \<open>try\<close> that guards the operation on the handle.
\<close>

text \<open>\<open>uploadToGCS\<close>: save the buffer under the key, then build the public URL from
  the bucket name and the key.\<close>

definition uploadToGCS :: "env \<Rightarrow> string \<Rightarrow> string \<Rightarrow> string \<Rightarrow> world \<Rightarrow> world \<times> (error + string)" where
  "uploadToGCS e buffer filename ctype w =
     (if filename = [] then (w, Inl NameError)
      else
        (let w1 = attempt (Save filename) w in
         if ok e (Save filename) then
           (w1\<lparr>bucket := (bucket w1)(filename \<mapsto> \<lparr>content = buffer, contentType = ctype\<rparr>)\<rparr>,
            Inr (''https://storage.googleapis.com/'' @ bucket_name e @ ''/'' @ filename))
         else (w1, Inl StorageError)))"

section \<open>Soundboard routes\<close>

text \<open>
  \<open>Model.create\<close> validates the instance before it sends any statement: a column
  declared \<open>allowNull: false\<close> refuses \<open>null\<close> and \<open>undefined\<close>, and a column of
  type STRING or TEXT refuses an array or an object. Any other value goes to the
  database, which decides.
\<close>

definition nullish :: "jsval \<Rightarrow> bool" where
  "nullish v = (v = JUndefined \<or> v = JNull)"

fun is_object :: "jsval \<Rightarrow> bool" where
  "is_object (JArr xs) = True"
| "is_object (JObj kvs) = True"
| "is_object v = False"

text \<open>What a STRING or TEXT column that is not nullable refuses.\<close>

definition refused :: "jsval \<Rightarrow> bool" where
  "refused v = (nullish v \<or> is_object v)"

text \<open>\<open>Soundboard.create\<close>: the ORM supplies the identifier and both timestamps. The
  columns \<open>title\<close>, \<open>text\<close> and \<open>createdByEmail\<close> are STRING, TEXT and STRING.\<close>

definition Soundboard_create ::
  "env \<Rightarrow> jsval \<Rightarrow> jsval \<Rightarrow> string \<Rightarrow> string \<Rightarrow> jsval \<Rightarrow> world \<Rightarrow> world \<times> (error + soundboard)" where
  "Soundboard_create e text title url fname email w =
     (if refused title \<or> refused text \<or> refused email then (w, Inl ValidationError)
      else
        (let w1 = attempt (Insert TSoundboard) w;
             row = \<lparr>sb_id = row_uuid e, sb_title = title, sb_text = text, audioUrl = url,
                    fileName = fname, createdByEmail = email,
                    createdAt = now e, updatedAt = now e\<rparr>
         in if ok e (Insert TSoundboard)
            then (w1\<lparr>soundboards := soundboards w1 @ [row]\<rparr>, Inr row)
            else (w1, Inl DbError)))"

text \<open>\<open>POST /soundboards\<close>.\<close>

definition post_soundboards :: "env \<Rightarrow> (string \<Rightarrow> jsval) \<Rightarrow> world \<Rightarrow> world \<times> response" where
  "post_soundboards e body w =
     (let title = body ''title''; text = body ''text''; email = body ''email'' in
      if \<not> truthy title \<or> \<not> truthy text \<or> \<not> truthy email then
        (w, respond 400 (Msg ''Title, text, and email are required''))
      else
        (case generateSpeech e text w of
           (w1, Inl err) \<Rightarrow> (w1, respond 500 (Msg ''Failed to create soundboard''))
         | (w1, Inr audioBuffer) \<Rightarrow>
             (let fname = uuid e @ ''.mp3'' in
              case uploadToGCS e audioBuffer fname ''audio/mpeg'' w1 of
                (w2, Inl err) \<Rightarrow> (w2, respond 500 (Msg ''Failed to create soundboard''))
              | (w2, Inr url) \<Rightarrow>
                  (case Soundboard_create e text title url fname email w2 of
                     (w3, Inl err) \<Rightarrow> (w3, respond 500 (Msg ''Failed to create soundboard''))
                   | (w3, Inr sb) \<Rightarrow> (w3, respond 201 (SoundboardCreated sb))))))"

text \<open>\<open>Soundboard.findAll\<close> with \<open>where: {createdByEmail: email}\<close> and
  \<open>order: [["createdAt", "DESC"]]\<close>.\<close>

definition newest_first :: "soundboard list \<Rightarrow> soundboard list" where
  "newest_first rows = rev (sort_key createdAt rows)"

definition Soundboard_findAll :: "env \<Rightarrow> string \<Rightarrow> world \<Rightarrow> world \<times> (error + soundboard list)" where
  "Soundboard_findAll e email w =
     (let w1 = attempt (Select TSoundboard) w in
      if ok e (Select TSoundboard)
      then (w1, Inr (newest_first (filter (\<lambda>r. createdByEmail r = JStr email) (soundboards w1))))
      else (w1, Inl DbError))"

text \<open>
  The callback mapped over the rows, under \<open>Promise.all\<close>: one existence check per row,
  whose failure is caught and read as "the file is not there". A row whose URL ends in
  a slash has an empty file name: its callback throws before the check, the other
  callbacks still run, and the whole listing fails.
\<close>

fun validate_files ::
  "env \<Rightarrow> soundboard list \<Rightarrow> world \<Rightarrow> world \<times> (error + (soundboard \<times> bool) list)" where
  "validate_files e [] w = (w, Inr [])"
| "validate_files e (s # ss) w =
     (let filename = url_filename (audioUrl s) in
      if filename = [] then
        (case validate_files e ss w of (w2, others) \<Rightarrow> (w2, Inl NameError))
      else
        (let w1 = attempt (Exists filename) w;
             fileExists = (if ok e (Exists filename) then bucket w1 filename \<noteq> None else False)
         in case validate_files e ss w1 of
              (w2, Inl err) \<Rightarrow> (w2, Inl err)
            | (w2, Inr rest) \<Rightarrow> (w2, Inr ((s, fileExists) # rest))))"

text \<open>\<open>GET /soundboards/:email\<close>.\<close>

definition get_soundboards :: "env \<Rightarrow> string \<Rightarrow> world \<Rightarrow> world \<times> response" where
  "get_soundboards e email w =
     (case Soundboard_findAll e email w of
        (w1, Inl err) \<Rightarrow> (w1, respond 500 (Msg ''Failed to fetch soundboards''))
      | (w1, Inr rows) \<Rightarrow>
          if length rows = 0 then
            (w1, respond 404 (Msg ''No soundboards found for this email''))
          else
            (case validate_files e rows w1 of
               (w2, Inl err) \<Rightarrow> (w2, respond 500 (Msg ''Failed to fetch soundboards''))
             | (w2, Inr validatedSoundboards) \<Rightarrow>
                 (w2, respond 200 (SoundboardList validatedSoundboards))))"

text \<open>\<open>DELETE /soundboards/:id\<close>: the inner try/catch around \<open>file.delete()\<close> only
  logs; \<open>soundboard.destroy()\<close> follows in either case. The handle of the file is made
  before that try.\<close>

definition delete_soundboard :: "env \<Rightarrow> string \<Rightarrow> world \<Rightarrow> world \<times> response" where
  "delete_soundboard e ident w =
     (let w1 = attempt (Select TSoundboard) w in
      if \<not> ok e (Select TSoundboard) then
        (w1, respond 500 (Msg ''Failed to delete soundboard''))
      else
        (case find (\<lambda>r. sb_id r = ident) (soundboards w1) of
           None \<Rightarrow> (w1, respond 404 (Msg ''Soundboard not found''))
         | Some sb \<Rightarrow>
             (let filename = url_filename (audioUrl sb) in
              if filename = [] then (w1, respond 500 (Msg ''Failed to delete soundboard''))
              else
                (let w2 = attempt (Delete filename) w1;
                     w3 = (if ok e (Delete filename)
                           then w2\<lparr>bucket := (bucket w2)(filename := None)\<rparr>
                           else w2);
                     w4 = attempt (Destroy TSoundboard) w3
                 in if ok e (Destroy TSoundboard) then
                      (w4\<lparr>soundboards := filter (\<lambda>r. sb_id r \<noteq> sb_id sb) (soundboards w4)\<rparr>,
                       respond 200 (Msg ''Soundboard deleted successfully''))
                    else (w4, respond 500 (Msg ''Failed to delete soundboard''))))))"

section \<open>History and message routes\<close>

text \<open>\<open>History.findOne({ where: { email } })\<close>: the first row whose email is the given
  value, which is what the condition means for a string.\<close>

definition History_findOne :: "env \<Rightarrow> jsval \<Rightarrow> world \<Rightarrow> world \<times> (error + history option)" where
  "History_findOne e email w =
     (let w1 = attempt (Select THistory) w in
      if ok e (Select THistory)
      then (w1, Inr (find (\<lambda>h. h_email h = email) (histories w1)))
      else (w1, Inl DbError))"

text \<open>\<open>History.create\<close>: \<open>email\<close> and \<open>title\<close> are STRING columns.\<close>

definition History_create :: "env \<Rightarrow> jsval \<Rightarrow> string \<Rightarrow> jsval \<Rightarrow> world \<Rightarrow> world \<times> (error + history)" where
  "History_create e email ident title w =
     (if refused email \<or> refused title then (w, Inl ValidationError)
      else
        (let w1 = attempt (Insert THistory) w;
             row = \<lparr>h_email = email, h_id = ident, h_title = title\<rparr>
         in if ok e (Insert THistory)
            then (w1\<lparr>histories := histories w1 @ [row]\<rparr>, Inr row)
            else (w1, Inl DbError)))"

text \<open>\<open>POST /history/email\<close>.\<close>

definition post_history_email :: "env \<Rightarrow> (string \<Rightarrow> jsval) \<Rightarrow> world \<Rightarrow> world \<times> response" where
  "post_history_email e body w =
     (let email = body ''email''; title = body ''title'' in
      if \<not> truthy email \<or> \<not> truthy title then
        (w, respond 400 (Msg ''Email dan title harus diisi''))
      else
        (case History_findOne e email w of
           (w1, Inl err) \<Rightarrow> (w1, respond 500 (Failed err))
         | (w1, Inr (Some existingHistory)) \<Rightarrow> (w1, respond 400 (Msg ''Email sudah terdaftar''))
         | (w1, Inr None) \<Rightarrow>
             (case History_create e email (uuid e) title w1 of
                (w2, Inl err) \<Rightarrow> (w2, respond 500 (Failed err))
              | (w2, Inr row) \<Rightarrow> (w2, respond 201 (HistoryCreated row)))))"




section \<open>Raw queries with replacements\<close>

text \<open>
  \<open>sequelize.query(sql, { replacements })\<close> writes each value in the place of its
  \<open>?\<close> before the statement is sent. A string, a boolean, a finite number and \<open>null\<close>
  are written as a literal of the value. An object cannot be written: the call throws
  \<open>Invalid value\<close> and nothing is sent. An array is written as the list of its
  elements, a nested array in parentheses: with exactly one element that is what that
  element gives, otherwise the statement has an operand too few or too many. A number
  that is not finite is written by its name, which is no literal. A statement with
  such an operand is sent and the database refuses it.
\<close>

datatype operand = Literal jsval | Unusable

fun escape :: "jsval \<Rightarrow> error + operand" where
  "escape JUndefined = Inr (Literal JNull)"
| "escape JNull = Inr (Literal JNull)"
| "escape (JBool b) = Inr (Literal (JBool b))"
| "escape (JNum n) = Inr (case n of Fin r \<Rightarrow> Literal (JNum n) | _ \<Rightarrow> Unusable)"
| "escape (JStr s) = Inr (Literal (JStr s))"
| "escape (JObj kvs) = Inl InvalidValue"
| "escape (JArr xs) =
     (let parts = map escape xs in
      if Inl InvalidValue \<in> set parts then Inl InvalidValue
      else (case parts of [part] \<Rightarrow> part | _ \<Rightarrow> Inr Unusable))"

section \<open>Profile update\<close>

record upload =
  originalname :: string
  mimetype :: string
  buffer :: string

definition allowedMimes :: "string list" where
  "allowedMimes = [''image/jpeg'', ''image/png'', ''image/jpg'']"

definition fileSize :: nat where
  "fileSize = 5 * 1024 * 1024"

text \<open>\<open>upload.single("profile_picture")\<close>: the filter sees the part's header first, the
  size limit applies while its bytes arrive, and the parser stops a part as soon as the
  bytes received reach the limit, so a file of exactly \<open>fileSize\<close> bytes is refused
  too. A refused file goes to the error-handling middleware and the route handler does
  not run.\<close>

definition upload_single :: "upload option \<Rightarrow> error option" where
  "upload_single file =
     (case file of
        None \<Rightarrow> None
      | Some f \<Rightarrow>
          if mimetype f \<notin> set allowedMimes then Some (UploadError ''File harus berupa gambar.'')
          else if fileSize \<le> length (buffer f) then Some (UploadError ''File too large'')
          else None)"

text \<open>Decimal digits of a natural number, as a template literal prints \<open>Date.now()\<close>.\<close>

fun show_nat :: "nat \<Rightarrow> string" where
  "show_nat n =
     (if n < 10 then [''0123456789'' ! n]
      else show_nat (n div 10) @ [''0123456789'' ! (n mod 10)])"

declare show_nat.simps [simp del]

text \<open>
  \<open>UPDATE profile SET ... WHERE email = ?\<close>, sent with
  \<open>type: Sequelize.QueryTypes.UPDATE\<close>. For a query of that type the library
  resolves to the pair \<open>[undefined, affectedRows]\<close>: the number of rows stands in the
  second place, and the first, which is the one the handler takes with
  \<open>const [result]\<close>, is \<open>undefined\<close> whatever the statement matched. The function
  returns that first component.
\<close>

definition update_profile ::
  "env \<Rightarrow> jsval \<Rightarrow> string option \<Rightarrow> string \<Rightarrow> world \<Rightarrow> world \<times> (error + jsval)" where
  "update_profile e name url email w =
     (case escape name of
        Inl err \<Rightarrow> (w, Inl err)
      | Inr Unusable \<Rightarrow> (attempt (Update TProfile) w, Inl DbError)
      | Inr (Literal v) \<Rightarrow>
          (let w1 = attempt (Update TProfile) w in
           if ok e (Update TProfile) then
             (w1\<lparr>profiles :=
                    map (\<lambda>p. if p_email p = JStr email
                             then (case url of
                                     None \<Rightarrow> p\<lparr>p_name := v\<rparr>
                                   | Some u \<Rightarrow> p\<lparr>p_name := v, profile_picture_url := Some u\<rparr>)
                             else p)
                        (profiles w1)\<rparr>,
              Inr JUndefined)
           else (w1, Inl DbError)))"

text \<open>\<open>PUT /profile/:email\<close>, the route handler. Its test \<open>result === 0\<close> compares
  the first component of the query's result with the number 0.\<close>

definition put_profile_handler ::
  "env \<Rightarrow> string \<Rightarrow> (string \<Rightarrow> jsval) \<Rightarrow> upload option \<Rightarrow> world \<Rightarrow> world \<times> response" where
  "put_profile_handler e email body file w =
     (let name = body ''name'' in
      if \<not> truthy name then (w, respond 400 (Msg ''Name is required''))
      else
        (case (case file of
                 None \<Rightarrow> (w, Inr None)
               | Some f \<Rightarrow>
                   (let filename = ''profiles/'' @ show_nat (now e) @ ''-'' @ originalname f in
                    case uploadToGCS e (buffer f) filename (mimetype f) w of
                      (w1, Inl err) \<Rightarrow> (w1, Inl err)
                    | (w1, Inr url) \<Rightarrow> (w1, Inr (Some url)))) of
           (w1, Inl err) \<Rightarrow> (w1, respond 500 (Failed err))
         | (w1, Inr profilePictureUrl) \<Rightarrow>
             (let url = (case profilePictureUrl of
                           None \<Rightarrow> None
                         | Some u \<Rightarrow> if u = [] then None else Some u) in
              case update_profile e name url email w1 of
                (w2, Inl err) \<Rightarrow> (w2, respond 500 (Failed err))
              | (w2, Inr result) \<Rightarrow>
                  if result = JNum (Fin 0) then (w2, respond 404 (Msg ''Profile not found''))
                  else (w2, respond 200 (Msg ''Profile updated successfully'')))))"

text \<open>\<open>PUT /profile/:email\<close> with its upload middleware in front.\<close>

definition put_profile ::
  "env \<Rightarrow> string \<Rightarrow> (string \<Rightarrow> jsval) \<Rightarrow> upload option \<Rightarrow> world \<Rightarrow> world \<times> response" where
  "put_profile e email body file w =
     (case upload_single file of
        Some err \<Rightarrow> (w, respond 500 (Failed err))
      | None \<Rightarrow> put_profile_handler e email body file w)"

section \<open>Feedback\<close>

text \<open>\<open>POST /feedback\<close>. The two comparisons convert \<open>rating\<close> to a number, which
  throws for a value that has no string; the handler's catch answers 500, as it does
  when a replacement cannot be written. The row holds the values as they were written
  into the statement, the answer repeats those of the request.\<close>

definition post_feedback :: "env \<Rightarrow> (string \<Rightarrow> jsval) \<Rightarrow> world \<Rightarrow> world \<times> response" where
  "post_feedback e body w =
     (let comment = body ''comment''; rating = body ''rating'' in
      if \<not> truthy comment \<or> \<not> truthy rating then
        (w, respond 400 (Msg ''Rating harus diisi''))
      else if \<not> stringable rating then (w, respond 500 (Failed TypeError))
      else if js_lt (to_number rating) (Fin 1) \<or> js_lt (Fin 4) (to_number rating) then
        (w, respond 400 (Msg ''Rating harus antara 1-4''))
      else
        (case (escape comment, escape rating) of
           (Inl err, r) \<Rightarrow> (w, respond 500 (Failed err))
         | (Inr c, Inl err) \<Rightarrow> (w, respond 500 (Failed err))
         | (Inr (Literal c), Inr (Literal r)) \<Rightarrow>
             (let w1 = attempt (Insert TFeedback) w in
              if ok e (Insert TFeedback) then
                (w1\<lparr>feedbacks := feedbacks w1 @
                                    [\<lparr>f_id = insert_id e, f_comment = c, f_rating = r\<rparr>]\<rparr>,
                 respond 201 (FeedbackCreated
                   \<lparr>f_id = insert_id e, f_comment = comment, f_rating = rating\<rparr>))
              else (w1, respond 500 (Failed DbError)))
         | (Inr c, Inr r) \<Rightarrow> (attempt (Insert TFeedback) w, respond 500 (Failed DbError))))"

section \<open>Report listing\<close>

text \<open>A number the database takes as a row count: a finite integer that is not negative.\<close>

fun as_count :: "jsnum \<Rightarrow> nat option" where
  "as_count (Fin a) = (if 0 \<le> a \<and> of_int \<lfloor>a\<rfloor> = a then Some (nat \<lfloor>a\<rfloor>) else None)"
| "as_count x = None"

definition newest_reports :: "report list \<Rightarrow> report list" where
  "newest_reports rows = rev (sort_key r_createdAt rows)"

text \<open>\<open>Report.findAndCountAll\<close> with \<open>limit\<close>, \<open>offset\<close> and
  \<open>order: [["createdAt", "DESC"]]\<close>: the number of all rows, and the rows of the page.
  A limit or an offset that is not a row count is refused by the database.\<close>

definition Report_findAndCountAll ::
  "env \<Rightarrow> jsnum \<Rightarrow> jsnum \<Rightarrow> world \<Rightarrow> world \<times> (error + nat \<times> report list)" where
  "Report_findAndCountAll e limit offset w =
     (let w1 = attempt (Select TReport) w in
      if \<not> ok e (Select TReport) then (w1, Inl DbError)
      else
        (case (as_count limit, as_count offset) of
           (Some l, Some k) \<Rightarrow>
             (w1, Inr (length (reports w1), take l (drop k (newest_reports (reports w1)))))
         | _ \<Rightarrow> (w1, Inl DbError)))"

text \<open>\<open>GET /report\<close>. A query parameter that is missing takes its default, 1 or 10.\<close>

definition get_report :: "env \<Rightarrow> (string \<Rightarrow> jsval) \<Rightarrow> world \<Rightarrow> world \<times> response" where
  "get_report e query w =
     (let page = (if query ''page'' = JUndefined then JNum (Fin 1) else query ''page'');
          limit = (if query ''limit'' = JUndefined then JNum (Fin 10) else query ''limit'')
      in if \<not> stringable page \<or> \<not> stringable limit then (w, respond 500 (Failed TypeError))
         else
           (let offset = js_mul (js_sub (to_number page) (Fin 1)) (to_number limit) in
            case Report_findAndCountAll e (parse_int limit) (parse_int (JNum offset)) w of
              (w1, Inl err) \<Rightarrow> (w1, respond 500 (Failed err))
            | (w1, Inr (cnt, rows)) \<Rightarrow>
                (w1, respond 200
                       (ReportPage cnt
                          (json_num (parse_int page))
                          (json_num (js_ceil (js_div (Fin (of_nat cnt)) (to_number limit))))
                          rows))))"

section \<open>Identifiers, sample inputs and the words of the statements\<close>

text \<open>What \<open>uuidv4()\<close> returns: 32 lower-case hexadecimal digits in groups of 8, 4, 4, 4
  and 12, separated by hyphens.\<close>

definition is_hex :: "char \<Rightarrow> bool" where
  "is_hex c = (c \<in> set ''0123456789abcdef'')"

definition is_uuid :: "string \<Rightarrow> bool" where
  "is_uuid u =
     (map is_hex u = map is_hex ''00000000-0000-0000-0000-000000000000''
      \<and> filter (\<lambda>c. \<not> is_hex c) u = ''----'')"

text \<open>An object read as a function of its keys: a key that is absent is \<open>undefined\<close>.\<close>

definition fields :: "(string \<times> jsval) list \<Rightarrow> string \<Rightarrow> jsval" where
  "fields kvs k = (case map_of kvs k of None \<Rightarrow> JUndefined | Some v \<Rightarrow> v)"

text \<open>An environment in which every external call succeeds, one in which chosen calls
  fail, and a world with empty tables and an empty bucket.\<close>

definition sample_env :: env where
  "sample_env =
     \<lparr>bucket_name = ''handlips-audio'',
      uuid = ''123e4567-e89b-42d3-a456-426614174000'',
      row_uuid = ''9b2c1d3e-0f4a-4b5c-8d6e-7f8091a2b3c4'',
      insert_id = 1,
      now = 1700000000000,
      audio = ''ID3'',
      ok = (\<lambda>c. True)\<rparr>"

definition failing :: "call list \<Rightarrow> env \<Rightarrow> env" where
  "failing cs e = e\<lparr>ok := (\<lambda>c. c \<notin> set cs \<and> ok e c)\<rparr>"

definition empty_world :: world where
  "empty_world =
     \<lparr>soundboards = [], histories = [], messages = [], profiles = [], feedbacks = [],
      reports = [], bucket = Map.empty, calls = []\<rparr>"

definition sample_soundboard :: "string \<Rightarrow> string \<Rightarrow> nat \<Rightarrow> soundboard" where
  "sample_soundboard ident fname t =
     \<lparr>sb_id = ident, sb_title = JStr ''Salam'', sb_text = JStr ''Selamat pagi'',
      audioUrl = ''https://storage.googleapis.com/handlips-audio/'' @ fname,
      fileName = fname, createdByEmail = JStr ''ani@example.com'',
      createdAt = t, updatedAt = t\<rparr>"

definition sample_library :: world where
  "sample_library =
     empty_world
       \<lparr>soundboards := [sample_soundboard ''id-1'' ''a.mp3'' 5,
                        (sample_soundboard ''id-2'' ''b.mp3'' 7)\<lparr>createdByEmail := JStr ''budi@example.com''\<rparr>,
                        sample_soundboard ''id-3'' ''c.mp3'' 9],
        bucket := [''a.mp3'' \<mapsto> \<lparr>content = ''ID3'', contentType = ''audio/mpeg''\<rparr>,
                   ''c.mp3'' \<mapsto> \<lparr>content = ''ID3'', contentType = ''audio/mpeg''\<rparr>]\<rparr>"

definition one_history :: world where
  "one_history =
     empty_world\<lparr>histories := [\<lparr>h_email = JStr ''ani@example.com'',
                                   h_id = ''123e4567-e89b-42d3-a456-426614174000'',
                                   h_title = JStr ''Obrolan''\<rparr>],
                  calls := [Select THistory, Insert THistory]\<rparr>"

definition sample_upload :: upload where
  "sample_upload = \<lparr>originalname = ''foto.png'', mimetype = ''image/png'', buffer = ''PNG''\<rparr>"

definition sample_profiles :: world where
  "sample_profiles =
     empty_world\<lparr>profiles := [\<lparr>p_name = JStr ''Budi'', p_email = JStr ''budi@example.com'',
                                  profile_picture_url = None\<rparr>]\<rparr>"




text \<open>
  What a query parameter denotes when it is read as a natural number: its default when
  it is missing, the value of its digits when it is a non-empty string of decimal digits.
\<close>

definition decimal :: "string \<Rightarrow> bool" where
  "decimal s = (s \<noteq> [] \<and> list_all (is_digit 10) s)"

definition param_nat :: "jsval \<Rightarrow> nat \<Rightarrow> nat option" where
  "param_nat v d =
     (case v of
        JUndefined \<Rightarrow> Some d
      | JStr s \<Rightarrow> if decimal s then Some (digits_val 10 s) else None
      | _ \<Rightarrow> None)"

definition sample_reports :: world where
  "sample_reports =
     empty_world
       \<lparr>reports := map (\<lambda>i. \<lparr>r_id = show_nat i, r_comment = JStr ''Suara tidak keluar'',
                               r_createdAt = 1700000000000 + i,
                               r_updatedAt = 1700000000000 + i\<rparr>) [0..<25]\<rparr>"

section \<open>Splitting a URL at its slashes\<close>

lemma is_uuid_no_slash: "is_uuid u \<Longrightarrow> CHR ''/'' \<notin> set u"
proof
  assume u: "is_uuid u" and mem: "CHR ''/'' \<in> set u"
  have "\<not> is_hex CHR ''/''" by (simp add: is_hex_def)
  with mem have "CHR ''/'' \<in> set (filter (\<lambda>c. \<not> is_hex c) u)" by simp
  with u show False by (simp add: is_uuid_def)
qed

lemma split_no_sep: "c \<notin> set s \<Longrightarrow> split c s = [s]"
  by (induction s) auto

lemma length_split: "length (split c s) = Suc (length (filter (\<lambda>x. x = c) s))"
  by (induction s) (auto split: list.splits)

lemma split_not_Nil: "split c s \<noteq> []"
  using length_split [of c s] by auto

lemma last_split: "c \<notin> set f \<Longrightarrow> last (split c (p @ c # f)) = f"
proof (induction p)
  case Nil
  then show ?case by (simp add: split_no_sep)
next
  case (Cons x p)
  have two: "2 \<le> length (split c (p @ c # f))"
    by (simp add: length_split)
  show ?case
  proof (cases "x = c")
    case True
    with Cons show ?thesis by (simp add: split_not_Nil)
  next
    case False
    obtain y ys where s: "split c (p @ c # f) = y # ys"
      using split_not_Nil [of c "p @ c # f"] by (cases "split c (p @ c # f)") auto
    with two have "ys \<noteq> []" by auto
    with s Cons False show ?thesis by simp
  qed
qed

lemma find_None_iff_ball: "find P xs = None \<longleftrightarrow> (\<forall>x \<in> set xs. \<not> P x)"
  by (induction xs) auto

section \<open>Creating a soundboard\<close>

text \<open>
  C1. When \<open>POST /soundboards\<close> is given a title, a text and an email that are not
  empty and that are no arrays and no objects (which the columns refuse), the speech
  call, the upload and the insert succeed, and \<open>uuidv4()\<close> returns a UUID, the answer
  is 201 with the row that was appended to the table, the row's \<open>fileName\<close> is the
  UUID followed by \<open>.mp3\<close>, and the last segment of the row's \<open>audioUrl\<close>
  (\<open>audioUrl.split("/").pop()\<close>) is that \<open>fileName\<close>.
\<close>

theorem created_soundboard_url_names_file:
  assumes present: "truthy (body ''title'')" "truthy (body ''text'')" "truthy (body ''email'')"
    and plain: "\<not> is_object (body ''title'')" "\<not> is_object (body ''text'')"
               "\<not> is_object (body ''email'')"
    and works: "ok e (Synthesize (body ''text''))" "ok e (Save (uuid e @ ''.mp3''))"
               "ok e (Insert TSoundboard)"
    and drawn: "is_uuid (uuid e)"
  shows "\<exists>w' sb. post_soundboards e body w = (w', respond 201 (SoundboardCreated sb))
           \<and> soundboards w' = soundboards w @ [sb]
           \<and> fileName sb = uuid e @ ''.mp3''
           \<and> pop (split CHR ''/'' (audioUrl sb)) = Some (fileName sb)"
proof -
  have ns: "CHR ''/'' \<notin> set (uuid e @ ''.mp3'')"
    using is_uuid_no_slash [OF drawn] by simp
  have "last (split CHR ''/'' ((''https://storage.googleapis.com/'' @ bucket_name e) @ CHR ''/'' # (uuid e @ ''.mp3'')))
        = uuid e @ ''.mp3''"
    using ns by (rule last_split)
  then have seg: "pop (split CHR ''/'' (''https://storage.googleapis.com/'' @ bucket_name e @ ''/'' @ uuid e @ ''.mp3''))
        = Some (uuid e @ ''.mp3'')"
    by (simp add: pop_def split_not_Nil)
  have nn: "\<not> refused (body ''title'')" "\<not> refused (body ''text'')" "\<not> refused (body ''email'')"
    using present plain by (auto simp: refused_def nullish_def)
  show ?thesis
    using present works nn seg
    by (simp add: post_soundboards_def generateSpeech_def uploadToGCS_def
        Soundboard_create_def attempt_def Let_def)
qed

theorem created_soundboard_url_names_file_witness:
  "truthy (JStr ''Salam'') \<and> is_uuid (uuid sample_env) \<and>
   (\<exists>w' sb. post_soundboards sample_env
                (fields [(''title'', JStr ''Salam''), (''text'', JStr ''Selamat pagi''),
                         (''email'', JStr ''ani@example.com'')]) empty_world
              = (w', respond 201 (SoundboardCreated sb))
            \<and> soundboards w' = [sb]
            \<and> fileName sb = ''123e4567-e89b-42d3-a456-426614174000.mp3''
            \<and> pop (split CHR ''/'' (audioUrl sb)) = Some (fileName sb))"
  using created_soundboard_url_names_file
          [of "fields [(''title'', JStr ''Salam''), (''text'', JStr ''Selamat pagi''),
                       (''email'', JStr ''ani@example.com'')]" sample_env empty_world]
  by (simp add: fields_def sample_env_def empty_world_def is_uuid_def is_hex_def)

text \<open>
  C3. When the title, the text or the email of a \<open>POST /soundboards\<close> request is empty
  or missing (or falsy in any other way), the answer is 400 and the world is the one
  before the request: no call to the speech service, no upload, no row.
\<close>

theorem invalid_soundboard_rejected:
  assumes "\<not> truthy (body ''title'') \<or> \<not> truthy (body ''text'') \<or> \<not> truthy (body ''email'')"
  shows "post_soundboards e body w = (w, respond 400 (Msg ''Title, text, and email are required''))"
  using assms by (auto simp: post_soundboards_def Let_def)

theorem invalid_soundboard_rejected_witness:
  "\<not> truthy (JStr []) \<and>
   post_soundboards sample_env
     (fields [(''title'', JStr ''Salam''), (''text'', JStr []), (''email'', JStr ''ani@example.com'')])
     empty_world
   = (empty_world, respond 400 (Msg ''Title, text, and email are required''))"
  using invalid_soundboard_rejected
          [of "fields [(''title'', JStr ''Salam''), (''text'', JStr []),
                       (''email'', JStr ''ani@example.com'')]" sample_env empty_world]
  by (simp add: fields_def)

section \<open>Deleting a soundboard\<close>

text \<open>
  C6. When the lookup succeeds and no soundboard row has the identifier of a
  \<open>DELETE /soundboards/:id\<close> request, the answer is 404, the only call made is the
  lookup (so no blob delete is attempted), and the table and the bucket are unchanged.
\<close>

theorem delete_missing_soundboard:
  assumes "ok e (Select TSoundboard)"
    and "\<forall>r \<in> set (soundboards w). sb_id r \<noteq> ident"
  shows "\<exists>w'. delete_soundboard e ident w = (w', respond 404 (Msg ''Soundboard not found''))
           \<and> calls w' = calls w @ [Select TSoundboard]
           \<and> soundboards w' = soundboards w
           \<and> bucket w' = bucket w"
proof -
  have "find (\<lambda>r. sb_id r = ident) (soundboards w) = None"
    using assms(2) by (simp add: find_None_iff_ball)
  with assms(1) show ?thesis
    by (simp add: delete_soundboard_def attempt_def Let_def)
qed

theorem delete_missing_soundboard_witness:
  "\<exists>w'. delete_soundboard sample_env ''no-such-id''
           (empty_world\<lparr>soundboards := [sample_soundboard ''id-1'' ''a.mp3'' 5]\<rparr>)
         = (w', respond 404 (Msg ''Soundboard not found''))
       \<and> calls w' = [Select TSoundboard]
       \<and> soundboards w' = [sample_soundboard ''id-1'' ''a.mp3'' 5]
       \<and> bucket w' = Map.empty"
  using delete_missing_soundboard
          [of sample_env "empty_world\<lparr>soundboards := [sample_soundboard ''id-1'' ''a.mp3'' 5]\<rparr>"
              "''no-such-id''"]
  by (simp add: sample_env_def empty_world_def sample_soundboard_def)

text \<open>
  C7. When the row of a \<open>DELETE /soundboards/:id\<close> request exists, its URL ends in a
  file name, and the lookup and the row delete succeed, the calls are, in this order,
  the lookup, the blob delete and the row delete; the answer is 200 and the row is gone,
  whether the blob delete succeeded or not. When it failed the bucket is unchanged.
\<close>

theorem delete_soundboard_best_effort:
  assumes "ok e (Select TSoundboard)"
    and "find (\<lambda>r. sb_id r = ident) (soundboards w) = Some sb"
    and "url_filename (audioUrl sb) \<noteq> []"
    and "ok e (Destroy TSoundboard)"
  shows "\<exists>w'. delete_soundboard e ident w
               = (w', respond 200 (Msg ''Soundboard deleted successfully''))
           \<and> calls w' = calls w @ [Select TSoundboard, Delete (url_filename (audioUrl sb)),
                                    Destroy TSoundboard]
           \<and> soundboards w' = filter (\<lambda>r. sb_id r \<noteq> ident) (soundboards w)
           \<and> (\<not> ok e (Delete (url_filename (audioUrl sb))) \<longrightarrow> bucket w' = bucket w)"
proof -
  have "sb_id sb = ident"
    using assms(2) by (auto simp: find_Some_iff)
  with assms show ?thesis
    by (simp add: delete_soundboard_def attempt_def Let_def)
qed

theorem delete_soundboard_best_effort_witness:
  "\<not> ok (failing [Delete ''a.mp3''] sample_env) (Delete ''a.mp3'') \<and>
   (\<exists>w'. delete_soundboard (failing [Delete ''a.mp3''] sample_env) ''id-1''
            (empty_world\<lparr>soundboards := [sample_soundboard ''id-1'' ''a.mp3'' 5],
                          bucket := [''a.mp3'' \<mapsto> \<lparr>content = ''ID3'', contentType = ''audio/mpeg''\<rparr>]\<rparr>)
          = (w', respond 200 (Msg ''Soundboard deleted successfully''))
        \<and> calls w' = [Select TSoundboard, Delete ''a.mp3'', Destroy TSoundboard]
        \<and> soundboards w' = []
        \<and> bucket w' = [''a.mp3'' \<mapsto> \<lparr>content = ''ID3'', contentType = ''audio/mpeg''\<rparr>])"
proof -
  have f: "url_filename ''https://storage.googleapis.com/handlips-audio/a.mp3'' = ''a.mp3''"
    by (simp add: url_filename_def pop_def)
  show ?thesis
    using delete_soundboard_best_effort
          [of "failing [Delete ''a.mp3''] sample_env" "''id-1''"
              "empty_world\<lparr>soundboards := [sample_soundboard ''id-1'' ''a.mp3'' 5],
                 bucket := [''a.mp3'' \<mapsto> \<lparr>content = ''ID3'', contentType = ''audio/mpeg''\<rparr>]\<rparr>"
              "sample_soundboard ''id-1'' ''a.mp3'' 5"]
    by (simp add: failing_def sample_env_def empty_world_def sample_soundboard_def f)
qed

section \<open>Listing the soundboards of an owner\<close>

lemma bucket_attempt: "bucket (attempt c w) = bucket w"
  by (simp add: attempt_def)

lemma validate_files_named:
  "\<forall>r \<in> set rows. url_filename (audioUrl r) \<noteq> [] \<Longrightarrow>
   \<exists>w' listed. validate_files e rows w = (w', Inr listed)"
proof (induction rows arbitrary: w)
  case Nil
  then show ?case by simp
next
  case (Cons s ss)
  let ?w1 = "attempt (Exists (url_filename (audioUrl s))) w"
  from Cons.prems have "\<forall>r \<in> set ss. url_filename (audioUrl r) \<noteq> []" by simp
  from Cons.IH [OF this, of ?w1] obtain w2 rest where "validate_files e ss ?w1 = (w2, Inr rest)"
    by blast
  with Cons.prems show ?case by (simp add: Let_def)
qed

lemma validate_files_rows:
  "validate_files e rows w = (w', Inr listed) \<Longrightarrow> map fst listed = rows"
proof (induction rows arbitrary: w w' listed)
  case Nil
  then show ?case by simp
next
  case (Cons s ss)
  then show ?case
    by (auto simp: Let_def split: prod.splits sum.splits if_splits)
qed

lemma validate_files_flags:
  "validate_files e rows w = (w', Inr listed) \<Longrightarrow> (sb, flag) \<in> set listed \<Longrightarrow>
   flag = (ok e (Exists (url_filename (audioUrl sb))) \<and> bucket w (url_filename (audioUrl sb)) \<noteq> None)"
proof (induction rows arbitrary: w w' listed)
  case Nil
  then show ?case by simp
next
  case (Cons s ss)
  let ?w1 = "attempt (Exists (url_filename (audioUrl s))) w"
  from Cons.prems(1) obtain rest where v: "validate_files e ss ?w1 = (w', Inr rest)"
    and l: "listed = (s, ok e (Exists (url_filename (audioUrl s)))
            \<and> bucket ?w1 (url_filename (audioUrl s)) \<noteq> None) # rest"
    by (auto simp: Let_def split: prod.splits sum.splits if_splits)
  from Cons.prems(2) l consider
      "sb = s" "flag = (ok e (Exists (url_filename (audioUrl s))) \<and> bucket ?w1 (url_filename (audioUrl s)) \<noteq> None)"
    | "(sb, flag) \<in> set rest"
    by auto
  then show ?case
  proof cases
    case 1
    then show ?thesis by (simp add: bucket_attempt)
  next
    case 2
    from Cons.IH [OF v this] show ?thesis by (simp add: bucket_attempt)
  qed
qed

lemma mset_newest_first: "mset (newest_first rows) = mset rows"
  by (simp add: newest_first_def)

lemma sorted_newest_first: "sorted_wrt (\<lambda>a b. createdAt b \<le> createdAt a) (newest_first rows)"
proof -
  have "sorted (map createdAt (sort_key createdAt rows))" by simp
  then have "sorted_wrt (\<lambda>a b. createdAt a \<le> createdAt b) (sort_key createdAt rows)"
    by (simp add: sorted_wrt_map)
  then show ?thesis
    by (simp add: newest_first_def sorted_wrt_rev)
qed

lemma newest_first_Nil_iff: "newest_first rows = [] \<longleftrightarrow> rows = []"
  using mset_newest_first [of rows] by (metis mset_zero_iff)

text \<open>
  C8. When the lookup succeeds and the URL of every row ends in a file name,
  \<open>GET /soundboards/:email\<close> answers 404 if the owner has no row, never 200 with an empty
  list. Otherwise it answers 200 with exactly the owner's rows, ordered by \<open>createdAt\<close>
  from the newest to the oldest, each with a \<open>fileExists\<close> flag that is true only if the
  existence check succeeded and found the object in the bucket; so it is false whenever
  the check failed.
\<close>

theorem list_soundboards:
  assumes "ok e (Select TSoundboard)"
    and "\<forall>r \<in> set (soundboards w). url_filename (audioUrl r) \<noteq> []"
  shows "(filter (\<lambda>r. createdByEmail r = JStr email) (soundboards w) = [] \<longrightarrow>
            (\<exists>w'. get_soundboards e email w
                   = (w', respond 404 (Msg ''No soundboards found for this email''))))
       \<and> (filter (\<lambda>r. createdByEmail r = JStr email) (soundboards w) \<noteq> [] \<longrightarrow>
            (\<exists>w' listed. get_soundboards e email w = (w', respond 200 (SoundboardList listed))
               \<and> mset (map fst listed) = mset (filter (\<lambda>r. createdByEmail r = JStr email) (soundboards w))
               \<and> sorted_wrt (\<lambda>a b. createdAt b \<le> createdAt a) (map fst listed)
               \<and> (\<forall>(sb, fileExists) \<in> set listed.
                     fileExists = (ok e (Exists (url_filename (audioUrl sb)))
                                   \<and> bucket w (url_filename (audioUrl sb)) \<noteq> None))))"
proof (intro conjI impI)
  let ?mine = "filter (\<lambda>r. createdByEmail r = JStr email) (soundboards w)"
  let ?w1 = "attempt (Select TSoundboard) w"
  have fa: "Soundboard_findAll e email w = (?w1, Inr (newest_first ?mine))"
    using assms(1) by (simp add: Soundboard_findAll_def attempt_def Let_def)
  {
    assume "?mine = []"
    then show "\<exists>w'. get_soundboards e email w
                   = (w', respond 404 (Msg ''No soundboards found for this email''))"
      using fa by (simp add: get_soundboards_def newest_first_def)
  }
  {
    assume ne: "?mine \<noteq> []"
    have "\<forall>r \<in> set (newest_first ?mine). url_filename (audioUrl r) \<noteq> []"
      using assms(2) by (simp add: newest_first_def)
    from validate_files_named [OF this, of e ?w1]
    obtain w2 listed where v: "validate_files e (newest_first ?mine) ?w1 = (w2, Inr listed)"
      by blast
    have rows: "map fst listed = newest_first ?mine"
      using validate_files_rows [OF v] by simp
    have flags: "\<forall>(sb, fileExists) \<in> set listed.
                     fileExists = (ok e (Exists (url_filename (audioUrl sb)))
                                   \<and> bucket w (url_filename (audioUrl sb)) \<noteq> None)"
      using validate_files_flags [OF v] by (auto simp: bucket_attempt)
    have "get_soundboards e email w = (w2, respond 200 (SoundboardList listed))"
      using fa ne v by (simp add: get_soundboards_def newest_first_Nil_iff)
    moreover have "mset (map fst listed) = mset ?mine"
      using rows by (simp add: mset_newest_first)
    moreover have "sorted_wrt (\<lambda>a b. createdAt b \<le> createdAt a) (map fst listed)"
      using rows by (simp add: sorted_newest_first)
    ultimately show "\<exists>w' listed. get_soundboards e email w = (w', respond 200 (SoundboardList listed))
               \<and> mset (map fst listed) = mset ?mine
               \<and> sorted_wrt (\<lambda>a b. createdAt b \<le> createdAt a) (map fst listed)
               \<and> (\<forall>(sb, fileExists) \<in> set listed.
                     fileExists = (ok e (Exists (url_filename (audioUrl sb)))
                                   \<and> bucket w (url_filename (audioUrl sb)) \<noteq> None))"
      using flags by blast
  }
qed

lemma sample_filenames:
  "url_filename ''https://storage.googleapis.com/handlips-audio/a.mp3'' = ''a.mp3''"
  "url_filename ''https://storage.googleapis.com/handlips-audio/b.mp3'' = ''b.mp3''"
  "url_filename ''https://storage.googleapis.com/handlips-audio/c.mp3'' = ''c.mp3''"
  by (simp_all add: url_filename_def pop_def)

lemma sample_listing:
  "get_soundboards (failing [Exists ''c.mp3''] sample_env) ''ani@example.com'' sample_library
   = (sample_library\<lparr>calls := [Select TSoundboard, Exists ''c.mp3'', Exists ''a.mp3'']\<rparr>,
      respond 200 (SoundboardList [(sample_soundboard ''id-3'' ''c.mp3'' 9, False),
                                   (sample_soundboard ''id-1'' ''a.mp3'' 5, True)]))"
  by (simp add: get_soundboards_def Soundboard_findAll_def newest_first_def attempt_def
      sample_library_def sample_soundboard_def empty_world_def failing_def sample_env_def
      sample_filenames Let_def)

theorem list_soundboards_witness:
  "ok sample_env (Select TSoundboard)
   \<and> map (\<lambda>r. url_filename (audioUrl r)) (soundboards sample_library) = [''a.mp3'', ''b.mp3'', ''c.mp3'']
   \<and> filter (\<lambda>r. createdByEmail r = JStr ''cici@example.com'') (soundboards sample_library) = []
   \<and> (\<exists>w'. get_soundboards sample_env ''cici@example.com'' sample_library
          = (w', respond 404 (Msg ''No soundboards found for this email'')))
   \<and> filter (\<lambda>r. createdByEmail r = JStr ''ani@example.com'') (soundboards sample_library)
       = [sample_soundboard ''id-1'' ''a.mp3'' 5, sample_soundboard ''id-3'' ''c.mp3'' 9]
   \<and> (\<exists>w'. get_soundboards (failing [Exists ''c.mp3''] sample_env) ''ani@example.com'' sample_library
          = (w', respond 200 (SoundboardList [(sample_soundboard ''id-3'' ''c.mp3'' 9, False),
                                              (sample_soundboard ''id-1'' ''a.mp3'' 5, True)])))"
proof -
  have k: "ok sample_env (Select TSoundboard)"
    "ok (failing [Exists ''c.mp3''] sample_env) (Select TSoundboard)"
    by (simp_all add: sample_env_def failing_def)
  have names: "map (\<lambda>r. url_filename (audioUrl r)) (soundboards sample_library)
               = [''a.mp3'', ''b.mp3'', ''c.mp3'']"
    by (simp add: sample_library_def sample_soundboard_def empty_world_def sample_filenames)
  then have named: "\<forall>r \<in> set (soundboards sample_library). url_filename (audioUrl r) \<noteq> []"
    by (simp add: sample_library_def sample_soundboard_def empty_world_def sample_filenames)
  have none: "filter (\<lambda>r. createdByEmail r = JStr ''cici@example.com'') (soundboards sample_library) = []"
    by (simp add: sample_library_def sample_soundboard_def empty_world_def)
  have some: "filter (\<lambda>r. createdByEmail r = JStr ''ani@example.com'') (soundboards sample_library)
       = [sample_soundboard ''id-1'' ''a.mp3'' 5, sample_soundboard ''id-3'' ''c.mp3'' 9]"
    by (simp add: sample_library_def sample_soundboard_def empty_world_def)
  have "\<exists>w'. get_soundboards sample_env ''cici@example.com'' sample_library
          = (w', respond 404 (Msg ''No soundboards found for this email''))"
    using list_soundboards [OF k(1) named, of "''cici@example.com''"] none by simp
  moreover have "\<exists>w'. get_soundboards (failing [Exists ''c.mp3''] sample_env) ''ani@example.com'' sample_library
          = (w', respond 200 (SoundboardList [(sample_soundboard ''id-3'' ''c.mp3'' 9, False),
                                              (sample_soundboard ''id-1'' ''a.mp3'' 5, True)]))"
    by (simp add: sample_listing)
  ultimately show ?thesis
    using k(1) names none some by simp
qed

section \<open>Creating a history\<close>

lemma find_Some_ex: "\<exists>x \<in> set xs. P x \<Longrightarrow> \<exists>y. find P xs = Some y"
  by (induction xs) auto

text \<open>
  C4. When the email of a \<open>POST /history/email\<close> request is a string, the table holds
  exactly one History row for it and the lookup succeeds, the answer is 400 and the
  table is unchanged, so it still holds exactly one row for that email. (The lemma
  \<open>first_history_created\<close> below shows that a first request leaves exactly one.)
\<close>

theorem duplicate_history_rejected:
  assumes "ok e (Select THistory)"
    and "body ''email'' = JStr address"
    and "length (filter (\<lambda>h. h_email h = JStr address) (histories w)) = 1"
  shows "\<exists>w' m. post_history_email e body w = (w', respond 400 (Msg m))
           \<and> histories w' = histories w
           \<and> length (filter (\<lambda>h. h_email h = JStr address) (histories w')) = 1"
proof (cases "truthy (body ''email'') \<and> truthy (body ''title'')")
  case False
  then have "post_history_email e body w = (w, respond 400 (Msg ''Email dan title harus diisi''))"
    by (auto simp: post_history_email_def Let_def)
  with assms(3) show ?thesis by blast
next
  case True
  have "filter (\<lambda>h. h_email h = JStr address) (histories w) \<noteq> []"
    using assms(3) by auto
  then have "\<exists>h \<in> set (histories w). h_email h = JStr address"
    by (auto simp: filter_empty_conv)
  then obtain h where "find (\<lambda>h. h_email h = JStr address) (histories w) = Some h"
    using find_Some_ex [of "histories w" "\<lambda>h. h_email h = JStr address"] by blast
  with True assms(1,2) have "post_history_email e body w
      = (attempt (Select THistory) w, respond 400 (Msg ''Email sudah terdaftar''))"
    by (simp add: post_history_email_def History_findOne_def attempt_def Let_def)
  moreover have "histories (attempt (Select THistory) w) = histories w"
    by (simp add: attempt_def)
  ultimately show ?thesis
    using assms(3) by (intro exI [of _ "attempt (Select THistory) w"] exI [of _ "''Email sudah terdaftar''"]) simp
qed

lemma first_history_created:
  assumes "body ''email'' = JStr address" and "address \<noteq> []"
    and "truthy (body ''title'')" and "\<not> is_object (body ''title'')"
    and "ok e (Select THistory)" and "ok e (Insert THistory)"
    and "\<forall>h \<in> set (histories w). h_email h \<noteq> JStr address"
  shows "\<exists>w' row. post_history_email e body w = (w', respond 201 (HistoryCreated row))
           \<and> histories w' = histories w @ [row]
           \<and> h_email row = JStr address \<and> h_id row = uuid e
           \<and> length (filter (\<lambda>h. h_email h = JStr address) (histories w')) = 1"
proof -
  have none: "find (\<lambda>h. h_email h = JStr address) (histories w) = None"
    using assms(7) by (simp add: find_None_iff_ball)
  have nn: "\<not> refused (JStr address)" "\<not> refused (body ''title'')"
    using assms(3,4) by (auto simp: refused_def nullish_def)
  have "filter (\<lambda>h. h_email h = JStr address) (histories w) = []"
    using assms(7) by (auto simp: filter_empty_conv)
  with assms(1-3,5,6) none nn show ?thesis
    by (simp add: post_history_email_def History_findOne_def History_create_def attempt_def Let_def)
qed

lemma first_history_sample:
  "post_history_email sample_env
     (fields [(''email'', JStr ''ani@example.com''), (''title'', JStr ''Obrolan'')]) empty_world
   = (one_history,
      respond 201 (HistoryCreated \<lparr>h_email = JStr ''ani@example.com'',
                                     h_id = ''123e4567-e89b-42d3-a456-426614174000'',
                                     h_title = JStr ''Obrolan''\<rparr>))"
  by (simp add: post_history_email_def History_findOne_def History_create_def attempt_def
      refused_def nullish_def fields_def sample_env_def empty_world_def one_history_def Let_def)

theorem duplicate_history_rejected_witness:
  "ok sample_env (Select THistory)
   \<and> fields [(''email'', JStr ''ani@example.com''), (''title'', JStr ''Lagi'')] ''email''
       = JStr ''ani@example.com''
   \<and> length (filter (\<lambda>h. h_email h = JStr ''ani@example.com'') (histories one_history)) = 1
   \<and> (\<exists>w' m. post_history_email sample_env
                  (fields [(''email'', JStr ''ani@example.com''), (''title'', JStr ''Lagi'')]) one_history
                = (w', respond 400 (Msg m))
              \<and> histories w' = histories one_history
              \<and> length (filter (\<lambda>h. h_email h = JStr ''ani@example.com'') (histories w')) = 1)"
proof -
  have e: "fields [(''email'', JStr ''ani@example.com''), (''title'', JStr ''Lagi'')] ''email''
           = JStr ''ani@example.com''"
    by (simp add: fields_def)
  have k: "ok sample_env (Select THistory)"
    by (simp add: sample_env_def)
  have c: "length (filter (\<lambda>h. h_email h = JStr ''ani@example.com'') (histories one_history)) = 1"
    by (simp add: one_history_def empty_world_def)
  from duplicate_history_rejected
         [of sample_env "fields [(''email'', JStr ''ani@example.com''), (''title'', JStr ''Lagi'')]"
             "''ani@example.com''" one_history, OF k e c]
    e k c
  show ?thesis by (intro conjI)
qed

section \<open>Appending a message\<close>




section \<open>Updating a profile\<close>

lemma show_nat_sample: "show_nat 1700000000000 = ''1700000000000''"
  by (simp add: show_nat.simps)

lemma map_unmatched: "\<forall>x \<in> set xs. \<not> P x \<Longrightarrow> map (\<lambda>x. if P x then g x else x) xs = xs"
  by (induction xs) auto

text \<open>
  For a \<open>PUT /profile/:email\<close> request with a name that is text and an image file that
  the upload middleware accepts, whose upload and database update succeed and whose
  email matches no profile row: the calls are the upload, under the key
  \<open>profiles/<time>-<original name>\<close>, and then the update; the bucket now holds the
  image under that key, although no profile was changed; and the answer is 200, since
  the value the handler compares with 0 is \<open>undefined\<close>.
\<close>

lemma profile_upload_precedes_update:
  assumes "body ''name'' = JStr name" and "name \<noteq> []"
    and "mimetype f \<in> set allowedMimes"
    and "length (buffer f) < fileSize"
    and "ok e (Save (''profiles/'' @ show_nat (now e) @ ''-'' @ originalname f))"
    and "ok e (Update TProfile)"
    and "\<forall>p \<in> set (profiles w). p_email p \<noteq> JStr email"
  shows "\<exists>w'. put_profile e email body (Some f) w
                = (w', respond 200 (Msg ''Profile updated successfully''))
           \<and> calls w' = calls w @ [Save (''profiles/'' @ show_nat (now e) @ ''-'' @ originalname f),
                                    Update TProfile]
           \<and> bucket w' = (bucket w)(''profiles/'' @ show_nat (now e) @ ''-'' @ originalname f
                                      \<mapsto> \<lparr>content = buffer f, contentType = mimetype f\<rparr>)
           \<and> profiles w' = profiles w"
proof -
  have up: "upload_single (Some f) = None"
    using assms(3,4) by (simp add: upload_single_def)
  have same: "map (\<lambda>p. if p_email p = JStr email then g p else p) (profiles w) = profiles w" for g
    using assms(7) by (simp add: map_unmatched)
  show ?thesis
    using assms(1,2,5,6) up same
    by (simp add: put_profile_def put_profile_handler_def uploadToGCS_def update_profile_def
        attempt_def Let_def)
qed

text \<open>No request at all is answered 404: the branch of the handler that says
  \<open>Profile not found\<close> cannot be reached.\<close>

lemma profile_not_found_unreachable:
  "status (snd (put_profile e email body file w)) \<noteq> 404"
  by (auto simp: put_profile_def put_profile_handler_def update_profile_def respond_def Let_def
      split: option.splits sum.splits prod.splits operand.splits if_splits)

text \<open>
  C10. A \<open>PUT /profile/:email\<close> request with a name and an image, whose email matches
  no profile row, is specified to be answered 404 after the image has been uploaded.
  The handler uploads the image first, but does not answer 404: on the table that
  holds one profile, of \<open>budi@example.com\<close>, the request for \<open>ani@example.com\<close> with
  the name \<open>Ani\<close> and the image \<open>foto.png\<close> stores the image in the bucket, sends
  the update, which changes no profile, and is answered 200
  \<open>Profile updated successfully\<close>.
\<close>

theorem unmatched_profile_answered_200:
  "map p_email (profiles sample_profiles) = [JStr ''budi@example.com'']
   \<and> put_profile sample_env ''ani@example.com'' (fields [(''name'', JStr ''Ani'')])
         (Some sample_upload) sample_profiles
       = (sample_profiles
            \<lparr>bucket := [''profiles/1700000000000-foto.png''
                           \<mapsto> \<lparr>content = ''PNG'', contentType = ''image/png''\<rparr>],
             calls := [Save ''profiles/1700000000000-foto.png'', Update TProfile]\<rparr>,
          respond 200 (Msg ''Profile updated successfully''))"
  by (simp add: put_profile_def put_profile_handler_def upload_single_def uploadToGCS_def
      update_profile_def attempt_def fields_def sample_upload_def sample_env_def
      sample_profiles_def empty_world_def allowedMimes_def fileSize_def show_nat_sample Let_def)

section \<open>Rounding to a double\<close>

text \<open>
  Two facts carry the arithmetic of the report listing: a natural number below
  \<open>2\<^sup>5\<^sup>3\<close> is a double, and the quotient of two such numbers, once rounded, still has the
  ceiling of the exact quotient.
\<close>

lemma ndigits_pos: "0 < n \<Longrightarrow> 2 \<le> b \<Longrightarrow> 0 < ndigits b n"
  by (subst ndigits.simps) simp

lemma ndigits_bounds:
  "0 < n \<Longrightarrow> 2 \<le> b \<Longrightarrow> b ^ (ndigits b n - 1) \<le> n \<and> n < b ^ ndigits b n"
proof (induction b n rule: ndigits.induct)
  case (1 b n)
  show ?case
  proof (cases "n div b = 0")
    case True
    then have "n < b" using "1.prems" by (simp add: div_eq_0_iff)
    moreover have "ndigits b n = 1"
      using True "1.prems" by (simp add: ndigits.simps [of b n] ndigits.simps [of b 0])
    ultimately show ?thesis using "1.prems" by simp
  next
    case False
    let ?k = "ndigits b (n div b)"
    have ih: "b ^ (?k - 1) \<le> n div b \<and> n div b < b ^ ?k"
      using "1.IH" "1.prems" False by simp
    have kpos: "0 < ?k" using False "1.prems" by (simp add: ndigits_pos)
    have nd: "ndigits b n = Suc ?k"
      using "1.prems" by (simp add: ndigits.simps [of b n])
    have "b ^ ?k = b * b ^ (?k - 1)"
      using kpos by (cases ?k) simp_all
    also have "\<dots> \<le> b * (n div b)" using ih by simp
    also have "\<dots> \<le> n" by simp
    finally have lo: "b ^ ?k \<le> n" .
    have "n < b * (n div b + 1)"
      using "1.prems" by (metis Suc_eq_plus1 dividend_less_times_div mult.commute mult_Suc_right add.commute less_le_trans linorder_not_less not_less_eq zero_less_iff_neq_zero zero_less_numeral)
    also have "\<dots> \<le> b * b ^ ?k" using ih by (intro mult_le_mono2) simp
    finally have hi: "n < b ^ Suc ?k" by simp
    from lo hi nd show ?thesis by simp
  qed
qed


lemma ipow_power_int: "ipow b k = b powi k"
  by (simp add: ipow_def power_int_def inverse_eq_divide power_one_over)

lemma ipow2_pos: "0 < ipow 2 k"
  by (simp add: ipow_power_int)

lemma ilog2_lower: "0 < x \<Longrightarrow> ipow 2 (ilog 2 x) \<le> x"
proof (cases "1 \<le> x")
  case True
  let ?n = "nat \<lfloor>x\<rfloor>"
  have n: "0 < ?n" using True by simp
  have "2 ^ (ndigits 2 ?n - 1) \<le> ?n"
    using ndigits_bounds [OF n, of 2] by simp
  then have "(2::rat) ^ (ndigits 2 ?n - 1) \<le> of_nat ?n"
    by (metis of_nat_le_iff of_nat_numeral of_nat_power)
  also have "\<dots> \<le> x" using True by (simp add: of_nat_nat)
  finally have "(2::rat) ^ (ndigits 2 ?n - 1) \<le> x" .
  moreover have "ilog 2 x = int (ndigits 2 ?n - 1)"
    using True ndigits_pos [OF n, of 2] by (simp add: ilog_def)
  ultimately show ?thesis by (simp add: ipow_def)
next
  case False
  assume pos: "0 < x"
  let ?m = "nat (\<lceil>1 / x\<rceil> - 1)"
  let ?k = "ndigits 2 ?m"
  have big: "1 < 1 / x" using False pos by simp
  then have c2: "2 \<le> \<lceil>1 / x\<rceil>" by (simp add: le_ceiling_iff)
  then have m: "0 < ?m" by simp
  have "?m < 2 ^ ?k" using ndigits_bounds [OF m, of 2] by simp
  then have "\<lceil>1 / x\<rceil> - 1 < 2 ^ ?k" using c2
    by (metis m nat_less_iff of_nat_numeral of_nat_power zero_less_nat_eq order_less_imp_le)
  then have "\<lceil>1 / x\<rceil> \<le> 2 ^ ?k" by simp
  then have "1 / x \<le> 2 ^ ?k"
    by (metis ceiling_le_iff of_int_numeral of_int_power)
  then have "1 / 2 ^ ?k \<le> x" using pos
    by (simp add: field_simps)
  moreover have "ilog 2 x = - int ?k"
    using False by (simp add: ilog_def)
  moreover have "0 < ?k" using ndigits_pos [OF m, of 2] by simp
  ultimately show ?thesis by (simp add: ipow_def)
qed

lemma round_even_of_int: "round_even (of_int m) = m"
  by (simp add: round_even_def)

lemma round_even_error: "\<bar>of_int (round_even y) - y\<bar> \<le> 1 / 2"
proof -
  define d where "d = y - of_int \<lfloor>y\<rfloor>"
  have d: "0 \<le> d" "d < 1" unfolding d_def by linarith+
  have lo: "of_int \<lfloor>y\<rfloor> - y = - d" and hi: "of_int (\<lfloor>y\<rfloor> + 1) - y = 1 - d"
    by (simp_all add: d_def)
  consider "d < 1 / 2" | "1 / 2 < d" | "d = 1 / 2" by linarith
  then show ?thesis
  proof cases
    case 1
    then have "round_even y = \<lfloor>y\<rfloor>" by (simp add: round_even_def d_def Let_def)
    then have "\<bar>of_int (round_even y) - y\<bar> = \<bar>- d\<bar>" using lo by simp
    with 1 d show ?thesis by linarith
  next
    case 2
    then have "round_even y = \<lfloor>y\<rfloor> + 1" by (simp add: round_even_def d_def Let_def)
    then have "\<bar>of_int (round_even y) - y\<bar> = \<bar>1 - d\<bar>" using hi by simp
    with 2 d show ?thesis by linarith
  next
    case 3
    then have "round_even y = \<lfloor>y\<rfloor> \<or> round_even y = \<lfloor>y\<rfloor> + 1"
      by (simp add: round_even_def d_def Let_def)
    then have "\<bar>of_int (round_even y) - y\<bar> = \<bar>- d\<bar> \<or> \<bar>of_int (round_even y) - y\<bar> = \<bar>1 - d\<bar>"
      using lo hi by auto
    with 3 show ?thesis by linarith
  qed
qed


lemma round_double_pos:
  "0 < x \<Longrightarrow>
   round_double x =
     (let u = ipow 2 (max (ilog 2 x) (- 1022) - 52);
          v = of_int (round_even (x / u)) * u
      in if 2 ^ 1024 \<le> v then PInf else Fin v)"
  by (simp add: round_double_def Let_def)

lemma ilog2_less: "0 < x \<Longrightarrow> x < 2 ^ n \<Longrightarrow> ilog 2 x < int n"
proof (rule ccontr)
  assume x: "0 < x" "x < 2 ^ n" and "\<not> ilog 2 x < int n"
  then have "int n \<le> ilog 2 x" by simp
  then have "(2::rat) powi int n \<le> 2 powi ilog 2 x"
    by (intro power_int_increasing) simp_all
  then have "2 ^ n \<le> ipow 2 (ilog 2 x)"
    by (simp add: ipow_power_int)
  with ilog2_lower [OF x(1)] x(2) show False by simp
qed

lemma round_double_of_nat:
  assumes "n < 2 ^ 53"
  shows "round_double (of_nat n) = Fin (of_nat n)"
proof (cases "n = 0")
  case True
  then show ?thesis by (simp add: round_double_def)
next
  case False
  define x :: rat where "x = of_nat n"
  have x: "0 < x" "x < 2 ^ 53"
    using False assms unfolding x_def
    by (simp, metis of_nat_less_iff of_nat_numeral of_nat_power)
  define j where "j = max (ilog 2 x) (- 1022) - 52"
  have "ilog 2 x < 53" using ilog2_less [OF x] by simp
  then have j: "j \<le> 0" by (simp add: j_def)
  define k where "k = nat (- j)"
  have u: "ipow 2 j = 1 / 2 ^ k"
    using j by (cases "j = 0") (simp_all add: ipow_def k_def)
  have "x / ipow 2 j = of_int (int n * 2 ^ k)"
    by (simp add: u x_def)
  then have "round_even (x / ipow 2 j) = int n * 2 ^ k"
    by (simp only: round_even_of_int)
  then have v: "of_int (round_even (x / ipow 2 j)) * ipow 2 j = x"
    by (simp add: u x_def)
  have "x < 2 ^ 1024"
    using x(2) by (rule less_le_trans) (simp add: power_increasing)
  with v show ?thesis
    using round_double_pos [OF x(1)] by (simp add: Let_def j_def [symmetric] x_def [symmetric])
qed


lemma spacing_bound:
  assumes "0 < x"
  shows "ipow 2 (max (ilog 2 x) (- 1022) - 52) \<le> max (x / 2 ^ 52) (1 / 2 ^ 1074)"
proof (cases "- 1022 \<le> ilog 2 x")
  case True
  have "ipow 2 (ilog 2 x - 52) = ipow 2 (ilog 2 x) / 2 ^ 52"
    by (simp add: ipow_power_int power_int_diff)
  also have "\<dots> \<le> x / 2 ^ 52"
    using ilog2_lower [OF assms] by (simp add: divide_right_mono)
  finally show ?thesis using True by (simp add: max_def)
next
  case False
  then have "max (ilog 2 x) (- 1022) - 52 = - 1074" by simp
  then have "ipow 2 (max (ilog 2 x) (- 1022) - 52) = 1 / 2 ^ 1074"
    by (simp add: ipow_def)
  then show ?thesis by (simp add: max_def)
qed

lemma rounding_error:
  assumes "0 < u"
  shows "\<bar>of_int (round_even (x / u)) * u - x\<bar> \<le> u / 2"
proof -
  have "of_int (round_even (x / u)) * u - x = (of_int (round_even (x / u)) - x / u) * u"
    using assms by (simp add: field_simps)
  then have "\<bar>of_int (round_even (x / u)) * u - x\<bar> = \<bar>of_int (round_even (x / u)) - x / u\<bar> * u"
    using assms by (simp add: abs_mult)
  also have "\<dots> \<le> (1 / 2) * u"
    using round_even_error [of "x / u"] assms by (intro mult_right_mono) simp_all
  finally show ?thesis by simp
qed

lemma ceiling_rounded_quotient:
  assumes "0 < l" and "c < 2 ^ 53" and "l < 2 ^ 53"
  shows "\<exists>y. round_double (of_nat c / of_nat l) = Fin y \<and> \<lceil>y\<rceil> = \<lceil>(of_nat c :: rat) / of_nat l\<rceil>"
proof (cases "c mod l = 0")
  case True
  then have "(of_nat c :: rat) / of_nat l = of_nat (c div l)"
    using assms(1) by (metis Euclidean_Rings.div_eq_0_iff add.right_neutral div_mult_mod_eq mult.commute nonzero_mult_div_cancel_left of_nat_0 of_nat_mult less_irrefl_nat of_nat_eq_0_iff zero_less_iff_neq_zero)
  moreover have "c div l < 2 ^ 53"
    using assms(2) by (meson div_le_dividend le_less_trans)
  ultimately show ?thesis
    using round_double_of_nat [of "c div l"] by simp
next
  case False
  define x :: rat where "x = of_nat c / of_nat l"
  define q where "q = c div l"
  define r where "r = c mod l"
  have r: "0 < r" "r < l" using False assms(1) by (simp_all add: r_def)
  have lpos: "(0::rat) < of_nat l" using assms(1) by simp
  have "c = q * l + r" by (simp add: q_def r_def)
  then have "(of_nat c :: rat) = of_nat q * of_nat l + of_nat r"
    by (metis of_nat_add of_nat_mult)
  then have xq: "x = of_nat q + of_nat r / of_nat l"
    using lpos by (simp add: x_def field_simps)
  have gap_lo: "1 / of_nat l \<le> x - of_nat q"
    using r lpos by (simp add: xq divide_right_mono)
  have "of_nat r / (of_nat l :: rat) \<le> (of_nat l - 1) / of_nat l"
    using r lpos by (intro divide_right_mono) (simp_all add: of_nat_diff Suc_leI flip: of_nat_Suc)
  then have gap_hi: "1 / of_nat l \<le> of_nat q + 1 - x"
    using lpos by (simp add: xq field_simps)
  have xpos: "0 < x" using gap_lo lpos
    by (metis add_pos_nonneg diff_add_cancel of_nat_0_le_iff zero_less_divide_1_iff less_le_trans)
  define u where "u = ipow 2 (max (ilog 2 x) (- 1022) - 52)"
  define v where "v = of_int (round_even (x / u)) * u"
  have upos: "0 < u" by (simp add: u_def ipow2_pos)
  have cl: "(of_nat c :: rat) < 2 ^ 53" "(of_nat l :: rat) < 2 ^ 53"
    using assms(2,3) by (metis of_nat_less_iff of_nat_numeral of_nat_power)+
  have "x / 2 ^ 52 < 2 / of_nat l"
  proof -
    have "x / 2 ^ 52 = (of_nat c / 2 ^ 52) / of_nat l" by (simp add: x_def)
    also have "\<dots> < 2 / of_nat l"
      using cl(1) lpos by (intro divide_strict_right_mono) simp_all
    finally show ?thesis .
  qed
  moreover have "(1::rat) / 2 ^ 1074 < 2 / of_nat l"
  proof -
    have "(of_nat l :: rat) < 2 * 2 ^ 1074"
      using cl(2) by (rule less_le_trans) simp
    then show ?thesis using lpos by (simp add: field_simps)
  qed
  ultimately have "u < 2 / of_nat l"
    using spacing_bound [OF xpos] by (simp add: u_def max_def split: if_splits)
  then have half: "u / 2 < 1 / of_nat l" by simp
  have err: "\<bar>v - x\<bar> \<le> u / 2"
    unfolding v_def by (rule rounding_error [OF upos])
  have lo: "of_nat q < v" using err half gap_lo by linarith
  have hi: "v < of_nat q + 1" using err half gap_hi by linarith
  have "v < of_nat c + 1"
  proof -
    have "q \<le> c" by (simp add: q_def)
    then have "(of_nat q :: rat) \<le> of_nat c" by simp
    with hi show ?thesis by linarith
  qed
  then have "v < 2 ^ 1024"
    using cl(1) by (simp add: less_trans [where y = "2 ^ 53 + 1"])
  then have rd: "round_double x = Fin v"
    using round_double_pos [OF xpos] by (simp add: Let_def u_def [symmetric] v_def [symmetric])
  have "\<lceil>v\<rceil> = int q + 1"
    using lo hi by (simp add: ceiling_eq_iff)
  moreover have "\<lceil>x\<rceil> = int q + 1"
  proof -
    have "(0::rat) < 1 / of_nat l" using lpos by simp
    with gap_lo gap_hi have "of_nat q < x" "x < of_nat q + 1" by linarith+
    then show ?thesis by (simp add: ceiling_eq_iff)
  qed
  ultimately show ?thesis
    using rd by (simp add: x_def)
qed

section \<open>Feedback ratings\<close>








text \<open>A rating that is not a number is compared after conversion: a word converts to
  NaN, which is neither below 1 nor above 4, and is stored as well.\<close>

lemma text_rating_accepted:
  "post_feedback sample_env
     (fields [(''comment'', JStr ''Bagus''), (''rating'', JStr ''bagus'')]) empty_world
   = (empty_world
        \<lparr>feedbacks := [\<lparr>f_id = 1, f_comment = JStr ''Bagus'', f_rating = JStr ''bagus''\<rparr>],
         calls := [Insert TFeedback]\<rparr>,
      respond 201 (FeedbackCreated
        \<lparr>f_id = 1, f_comment = JStr ''Bagus'', f_rating = JStr ''bagus''\<rparr>))"
proof -
  have "str_to_number ''bagus'' = NaN"
    by (simp add: str_to_number_def trim_def is_ws_def signed_decimal_def unsigned_decimal_def
        is_digit_def digit_of_def Let_def)
  then show ?thesis
    by (simp add: post_feedback_def fields_def sample_env_def empty_world_def attempt_def Let_def)
qed

section \<open>Pages of reports\<close>

lemma other_not_digit:
  "c \<in> set [CHR 0x09, CHR 0x0A, CHR 0x0B, CHR 0x0C, CHR 0x0D, CHR 0x20] \<union> set ''-+xXoObBI''
   \<Longrightarrow> \<not> is_digit 10 c"
  by (auto simp: is_digit_def digit_of_def Let_def)

lemma digit_not_other:
  "is_digit 10 c \<Longrightarrow> \<not> is_ws c \<and> c \<notin> set ''-+xXoObBI''"
  using other_not_digit [of c] unfolding is_ws_def by blast

lemma decimal_chars:
  assumes "decimal s"
  shows "s \<noteq> []" and "\<forall>c \<in> set s. is_digit 10 c"
    and "\<forall>c \<in> set s. \<not> is_ws c" and "\<forall>c \<in> set s. c \<notin> set ''-+xXoObBI''"
  using assms digit_not_other by (auto simp: decimal_def list_all_iff)

lemma second_in_set: "take 2 s = [a, b] \<Longrightarrow> b \<in> set s"
  by (cases s; cases "tl s") auto

lemma decimal_trim: "decimal s \<Longrightarrow> trim s = s"
proof -
  assume d: "decimal s"
  then have a: "dropWhile is_ws s = s"
    using decimal_chars(1,3) [OF d] by (cases s) auto
  have "dropWhile is_ws (rev s) = rev s"
    using decimal_chars(1,3) [OF d] by (cases "rev s") (auto simp: dropWhile_eq_self_iff)
  with a show ?thesis by (simp add: trim_def)
qed

lemma decimal_unsigned: "decimal s \<Longrightarrow> unsigned_decimal s = Some (of_nat (digits_val 10 s))"
proof -
  assume d: "decimal s"
  have tw: "takeWhile (is_digit 10) s = s" and dw: "dropWhile (is_digit 10) s = []"
    using decimal_chars(2) [OF d] by (simp_all add: takeWhile_eq_all_conv)
  show ?thesis
    unfolding unsigned_decimal_def Let_def tw dw
    using decimal_chars(1) [OF d] by simp
qed

lemma decimal_no_prefix:
  assumes "decimal s"
  shows "take 2 s \<noteq> ''0x''" "take 2 s \<noteq> ''0X''" "take 2 s \<noteq> ''0o''" "take 2 s \<noteq> ''0O''"
    "take 2 s \<noteq> ''0b''" "take 2 s \<noteq> ''0B''" "hd s \<noteq> CHR ''-''" "hd s \<noteq> CHR ''+''"
    "s \<noteq> ''Infinity''"
proof -
  note bad = decimal_chars(4) [OF assms]
  show "take 2 s \<noteq> ''0x''" using second_in_set [of s "CHR ''0''" "CHR ''x''"] bad by auto
  show "take 2 s \<noteq> ''0X''" using second_in_set [of s "CHR ''0''" "CHR ''X''"] bad by auto
  show "take 2 s \<noteq> ''0o''" using second_in_set [of s "CHR ''0''" "CHR ''o''"] bad by auto
  show "take 2 s \<noteq> ''0O''" using second_in_set [of s "CHR ''0''" "CHR ''O''"] bad by auto
  show "take 2 s \<noteq> ''0b''" using second_in_set [of s "CHR ''0''" "CHR ''b''"] bad by auto
  show "take 2 s \<noteq> ''0B''" using second_in_set [of s "CHR ''0''" "CHR ''B''"] bad by auto
  have "hd s \<in> set s" using decimal_chars(1) [OF assms] by simp
  with bad show "hd s \<noteq> CHR ''-''" "hd s \<noteq> CHR ''+''" by auto
  show "s \<noteq> ''Infinity''"
  proof
    assume "s = ''Infinity''"
    then have "CHR ''I'' \<in> set s" by simp
    moreover have "CHR ''I'' \<in> set ''-+xXoObBI''" by simp
    ultimately show False using bad by blast
  qed
qed

lemma decimal_to_number:
  assumes "decimal s"
  shows "str_to_number s = round_double (of_nat (digits_val 10 s))"
proof -
  have "signed_decimal False s = round_double (of_nat (digits_val 10 s))"
    using decimal_no_prefix(9) [OF assms]
    by (simp add: signed_decimal_def decimal_unsigned [OF assms])
  then show ?thesis
    unfolding str_to_number_def Let_def decimal_trim [OF assms]
    using decimal_no_prefix [OF assms] decimal_chars(1) [OF assms]
    by simp
qed

lemma decimal_parse_int:
  assumes "decimal s"
  shows "parse_int_str s = round_double (of_nat (digits_val 10 s))"
proof -
  have a: "dropWhile is_ws s = s"
    using decimal_chars(1,3) [OF assms] by (cases s) auto
  have t: "takeWhile (is_digit 10) s = s"
    using decimal_chars(2) [OF assms] by (simp add: takeWhile_eq_all_conv)
  show ?thesis
    using decimal_no_prefix(1,2,7,8) [OF assms] decimal_chars(1) [OF assms]
    by (simp add: parse_int_str_def a t Let_def)
qed

lemma parse_int_of_nat:
  assumes "n < 2 ^ 53"
  shows "parse_int_num (Fin (of_nat n)) = Fin (of_nat n)"
proof (cases "n = 0")
  case True
  then show ?thesis by (simp add: parse_int_num_def)
next
  case False
  then have "(1::rat) \<le> of_nat n" by (simp add: Suc_leI flip: of_nat_Suc)
  then have lo: "min_fixed \<le> of_nat n"
    by (rule order_trans [rotated]) (simp add: min_fixed_def)
  have "(of_nat n :: rat) < 2 ^ 53"
    using assms by (metis of_nat_less_iff of_nat_numeral of_nat_power)
  then have hi: "(of_nat n :: rat) < 10 ^ 21"
    by (rule less_trans) simp
  from False lo hi show ?thesis
    by (simp add: parse_int_num_def Let_def)
qed

lemma as_count_of_nat: "as_count (Fin (of_nat n)) = Some n"
  by simp

lemma param_nat_coerce:
  assumes "param_nat v d = Some n" and "n < 2 ^ 53"
  shows "stringable (if v = JUndefined then JNum (Fin (of_nat d)) else v)"
    and "to_number (if v = JUndefined then JNum (Fin (of_nat d)) else v) = Fin (of_nat n)"
    and "parse_int (if v = JUndefined then JNum (Fin (of_nat d)) else v) = Fin (of_nat n)"
proof -
  consider "v = JUndefined" "d = n" | s where "v = JStr s" "decimal s" "digits_val 10 s = n"
    using assms(1) by (cases v) (auto simp: param_nat_def split: if_splits)
  then have "stringable (if v = JUndefined then JNum (Fin (of_nat d)) else v)
      \<and> to_number (if v = JUndefined then JNum (Fin (of_nat d)) else v) = Fin (of_nat n)
      \<and> parse_int (if v = JUndefined then JNum (Fin (of_nat d)) else v) = Fin (of_nat n)"
  proof cases
    case 1
    then show ?thesis using assms(2) by (simp add: parse_int_of_nat)
  next
    case 2
    then show ?thesis
      using assms(2) by (simp add: decimal_to_number decimal_parse_int round_double_of_nat)
  qed
  then show "stringable (if v = JUndefined then JNum (Fin (of_nat d)) else v)"
    and "to_number (if v = JUndefined then JNum (Fin (of_nat d)) else v) = Fin (of_nat n)"
    and "parse_int (if v = JUndefined then JNum (Fin (of_nat d)) else v) = Fin (of_nat n)"
    by simp_all
qed


lemma length_newest_reports: "length (newest_reports rows) = length rows"
  by (simp add: newest_reports_def)

lemma offset_exact:
  assumes "1 \<le> p" and "p < 2 ^ 53" and "(p - 1) * l < 2 ^ 53"
  shows "js_mul (js_sub (Fin (of_nat p)) (Fin 1)) (Fin (of_nat l)) = Fin (of_nat ((p - 1) * l))"
proof -
  have s1: "js_sub (Fin (of_nat p)) (Fin 1) = round_double (of_nat p - 1)"
    by (simp add: js_sub_def)
  have s2: "(of_nat p :: rat) - 1 = of_nat (p - 1)"
    using assms(1) by (simp add: of_nat_diff)
  have s3: "p - 1 < 2 ^ 53" using assms(2) by simp
  have s4: "js_sub (Fin (of_nat p)) (Fin 1) = Fin (of_nat (p - 1))"
    unfolding s1 s2 by (rule round_double_of_nat [OF s3])
  have s5: "(of_nat (p - 1) :: rat) * of_nat l = of_nat ((p - 1) * l)"
    by simp
  show ?thesis
    unfolding s4 js_mul.simps s5 by (rule round_double_of_nat [OF assms(3)])
qed

text \<open>
  C9. Let the \<open>page\<close> and \<open>limit\<close> parameters of \<open>GET /report\<close> be missing or decimal
  numerals, denoting \<open>p \<ge> 1\<close> and \<open>l \<ge> 1\<close>, let \<open>p\<close>, \<open>l\<close>, \<open>(p - 1) * l\<close> and the
  number of rows be below \<open>2\<^sup>5\<^sup>3\<close>, and let the query succeed. Then the answer is 200,
  \<open>total\<close> is the number of rows, \<open>currentPage\<close> is \<open>p\<close>, \<open>totalPages\<close> is the ceiling
  of the number of rows divided by \<open>l\<close>, and the rows returned are the \<open>l\<close> rows (or
  fewer, at the end) that follow the first \<open>(p - 1) * l\<close> rows in the order newest
  first. With 25 rows, \<open>l = 10\<close> and \<open>p = 1\<close> that is 10 rows and 3 pages.
\<close>

theorem report_pagination:
  assumes "param_nat (query ''page'') 1 = Some p"
    and "param_nat (query ''limit'') 10 = Some l"
    and "1 \<le> p" and "1 \<le> l"
    and "p < 2 ^ 53" and "l < 2 ^ 53" and "(p - 1) * l < 2 ^ 53"
    and "length (reports w) < 2 ^ 53"
    and "ok e (Select TReport)"
  shows "\<exists>w' rows totalPages.
           get_report e query w
             = (w', respond 200 (ReportPage (length (reports w)) (Some (of_nat p))
                                   (Some (of_int totalPages)) rows))
         \<and> totalPages = \<lceil>(of_nat (length (reports w)) :: rat) / of_nat l\<rceil>
         \<and> rows = take l (drop ((p - 1) * l) (newest_reports (reports w)))
         \<and> (length (reports w) = 25 \<and> l = 10 \<and> p = 1 \<longrightarrow> length rows = 10 \<and> totalPages = 3)"
proof -
  let ?page = "if query ''page'' = JUndefined then JNum (Fin 1) else query ''page''"
  let ?limit = "if query ''limit'' = JUndefined then JNum (Fin 10) else query ''limit''"
  let ?n = "length (reports w)"
  let ?rows = "take l (drop ((p - 1) * l) (newest_reports (reports w)))"
  have page: "stringable ?page" "to_number ?page = Fin (of_nat p)" "parse_int ?page = Fin (of_nat p)"
    by (rule param_nat_coerce [OF assms(1) assms(5), unfolded of_nat_1])+
  have limit: "stringable ?limit" "to_number ?limit = Fin (of_nat l)" "parse_int ?limit = Fin (of_nat l)"
    by (rule param_nat_coerce [OF assms(2) assms(6), unfolded of_nat_numeral])+
  have offset: "js_mul (js_sub (to_number ?page) (Fin 1)) (to_number ?limit) = Fin (of_nat ((p - 1) * l))"
    unfolding page(2) limit(2) using assms(3,5,7) by (rule offset_exact)
  have poff: "parse_int (JNum (Fin (of_nat ((p - 1) * l)))) = Fin (of_nat ((p - 1) * l))"
    unfolding parse_int.simps by (rule parse_int_of_nat [OF assms(7)])
  have db: "Report_findAndCountAll e (Fin (of_nat l)) (Fin (of_nat ((p - 1) * l))) w
            = (attempt (Select TReport) w, Inr (?n, ?rows))"
    unfolding Report_findAndCountAll_def Let_def as_count_of_nat
    using assms(9) by (simp add: attempt_def)
  obtain y where y: "round_double (of_nat ?n / of_nat l) = Fin y"
      "\<lceil>y\<rceil> = \<lceil>(of_nat ?n :: rat) / of_nat l\<rceil>"
    using ceiling_rounded_quotient [of l ?n] assms(4,6,8) by auto
  have pages: "json_num (js_ceil (js_div (Fin (of_nat ?n)) (Fin (of_nat l))))
               = Some (of_int \<lceil>(of_nat ?n :: rat) / of_nat l\<rceil>)"
    using assms(4) y by simp
  have "get_report e query w
        = (attempt (Select TReport) w,
           respond 200 (ReportPage ?n (Some (of_nat p))
                          (Some (of_int \<lceil>(of_nat ?n :: rat) / of_nat l\<rceil>)) ?rows))"
    unfolding get_report_def Let_def
    by (simp only: page limit offset_exact [OF assms(3,5,7)] poff db pages
        prod.case sum.case if_False simp_thms json_num.simps)
  moreover have "length ?rows = 10 \<and> \<lceil>(of_nat ?n :: rat) / of_nat l\<rceil> = 3"
    if "?n = 25 \<and> l = 10 \<and> p = 1"
  proof -
    have "\<lceil>(25 :: rat) / 10\<rceil> = 3" by (rule ceiling_unique) simp_all
    with that show ?thesis by (simp add: length_newest_reports)
  qed
  ultimately show ?thesis by blast
qed

theorem report_pagination_witness:
  "param_nat (fields [(''page'', JStr ''1''), (''limit'', JStr ''10'')] ''page'') 1 = Some 1
   \<and> param_nat (fields [(''page'', JStr ''1''), (''limit'', JStr ''10'')] ''limit'') 10 = Some 10
   \<and> length (reports sample_reports) = 25
   \<and> (\<exists>w'. get_report sample_env (fields [(''page'', JStr ''1''), (''limit'', JStr ''10'')])
               sample_reports
             = (w', respond 200 (ReportPage 25 (Some 1) (Some 3)
                                   (take 10 (newest_reports (reports sample_reports))))))
   \<and> length (take 10 (newest_reports (reports sample_reports))) = 10"
proof -
  let ?q = "fields [(''page'', JStr ''1''), (''limit'', JStr ''10'')]"
  have p: "param_nat (?q ''page'') 1 = Some 1"
    by (simp add: fields_def param_nat_def decimal_def is_digit_def digit_of_def digits_val_def)
  have l: "param_nat (?q ''limit'') 10 = Some 10"
    by (simp add: fields_def param_nat_def decimal_def is_digit_def digit_of_def digits_val_def)
  have n: "length (reports sample_reports) = 25"
    by (simp add: sample_reports_def)
  have k: "ok sample_env (Select TReport)"
    by (simp add: sample_env_def)
  have "\<exists>w'. get_report sample_env ?q sample_reports
             = (w', respond 200 (ReportPage 25 (Some 1) (Some 3)
                                   (take 10 (newest_reports (reports sample_reports)))))"
    using report_pagination [OF p l _ _ _ _ _ _ k, of sample_reports] n
    by auto
  with p l n show ?thesis
    by (simp add: length_newest_reports)
qed

section \<open>Parameters that are not integers\<close>

lemma round_even_near:
  assumes "\<bar>x - of_int z\<bar> < 1 / 2"
  shows "round_even x = z"
proof (cases "of_int z \<le> x")
  case True
  with assms have "\<lfloor>x\<rfloor> = z" by (intro floor_unique) (simp_all add: abs_if split: if_splits)
  with True assms show ?thesis by (simp add: round_even_def Let_def abs_if split: if_splits)
next
  case False
  with assms have f: "\<lfloor>x\<rfloor> = z - 1" by (intro floor_unique) (simp_all add: abs_if split: if_splits)
  have "1 / 2 < x - of_int (z - 1)" using False assms by (simp add: abs_if split: if_splits)
  with f show ?thesis by (simp add: round_even_def Let_def)
qed

lemma ndigits_999999: "ndigits 2 999999 = 20"
  by (simp add: ndigits.simps)

lemma round_double_value:
  assumes "0 < x" and "ilog 2 x = e" and "- 1022 \<le> e" and "ipow 2 (e - 52) = u"
    and "\<bar>x / u - of_int m\<bar> < 1 / 2" and "of_int m * u < 2 ^ 1024"
  shows "round_double x = Fin (of_int m * u)"
proof -
  have "max (ilog 2 x) (- 1022) - 52 = e - 52" using assms(2,3) by simp
  moreover have "round_even (x / u) = m" using assms(5) by (rule round_even_near)
  ultimately show ?thesis
    using assms(4,6) unfolding round_double_pos [OF assms(1)] Let_def by simp
qed

text \<open>\<open>min_fixed\<close> is the double that \<open>0.000001\<close> denotes.\<close>

lemma min_fixed_is_double: "round_double (1 / 10 ^ 6) = Fin min_fixed"
proof -
  have "round_double (1 / 10 ^ 6)
        = Fin (of_int 4722366482869645 * (1 / 4722366482869645213696))"
  proof (rule round_double_value [where e = "- 20"])
    show "ilog 2 (1 / 10 ^ 6) = - 20" by (simp add: ilog_def ndigits_999999)
    show "ipow 2 (- 20 - 52) = 1 / 4722366482869645213696" by (simp add: ipow_def)
  qed simp_all
  then show ?thesis by (simp add: min_fixed_def)
qed

lemma ndigits_2: "ndigits 2 2 = 2"
  by (simp add: ndigits.simps)

lemma round_double_5_2: "round_double (5 / 2) = Fin (5 / 2)"
proof -
  have "round_double (5 / 2) = Fin (of_int 5629499534213120 * (1 / 2251799813685248))"
  proof (rule round_double_value [where e = 1])
    have "\<lfloor>(5 :: rat) / 2\<rfloor> = 2" by (rule floor_unique) simp_all
    then show "ilog 2 (5 / 2) = 1" by (simp add: ilog_def ndigits_2)
    show "ipow 2 (1 - 52) = 1 / 2251799813685248" by (simp add: ipow_def)
  qed simp_all
  then show ?thesis by simp
qed


text \<open>
  A limit that is not an integer: with \<open>page=2\<close> and \<open>limit=2.5\<close> the database is asked
  for \<open>parseInt("2.5") = 2\<close> rows from offset \<open>parseInt(2.5) = 2\<close>, while
  \<open>totalPages\<close> is computed from 2.5.
\<close>

lemma fractional_limit:
  "get_report sample_env (fields [(''page'', JStr ''2''), (''limit'', JStr ''2.5'')]) sample_reports
   = (attempt (Select TReport) sample_reports,
      respond 200 (ReportPage 25 (Some 2) (Some 10)
                     (take 2 (drop 2 (newest_reports (reports sample_reports))))))"
proof -
  have d: "is_digit 10 CHR ''2''" "is_digit 10 CHR ''5''" "\<not> is_digit 10 CHR ''.''"
    by (simp_all add: is_digit_def digit_of_def)
  have v: "digits_val 10 ''2'' = 2" "digits_val 10 ''5'' = 5"
    by (simp_all add: digits_val_def digit_of_def)
  have two: "round_double 2 = Fin 2"
    using round_double_of_nat [of 2] by simp
  have page: "str_to_number ''2'' = Fin 2" "parse_int_str ''2'' = Fin 2"
    using decimal_to_number [of "''2''"] decimal_parse_int [of "''2''"]
    by (simp_all add: decimal_def d v two)
  have lim: "str_to_number ''2.5'' = Fin (5 / 2)"
    by (simp add: str_to_number_def trim_def is_ws_def signed_decimal_def unsigned_decimal_def
        exponent_part_def ipow_def d v round_double_5_2 Let_def)
  have plim: "parse_int_str ''2.5'' = Fin 2"
    by (simp add: parse_int_str_def is_ws_def d v two Let_def)
  have off: "js_mul (js_sub (Fin 2) (Fin 1)) (Fin (5 / 2)) = Fin (5 / 2)"
    using round_double_of_nat [of 1] by (simp add: js_sub_def round_double_5_2)
  have "\<lfloor>(5 :: rat) / 2\<rfloor> = 2" by (rule floor_unique) simp_all
  then have poff: "parse_int_num (Fin (5 / 2)) = Fin 2"
    by (simp add: parse_int_num_def min_fixed_def Let_def)
  have q: "round_double 10 = Fin 10"
    using round_double_of_nat [of 10] by simp
  have n: "length (reports sample_reports) = 25"
    by (simp add: sample_reports_def)
  have db: "Report_findAndCountAll sample_env (Fin 2) (Fin 2) sample_reports
            = (attempt (Select TReport) sample_reports,
               Inr (25, take 2 (drop 2 (newest_reports (reports sample_reports)))))"
    by (simp add: Report_findAndCountAll_def sample_env_def attempt_def n Let_def)
  show ?thesis
    unfolding get_report_def Let_def
    by (simp add: fields_def page lim plim off poff db q)
qed

section \<open>Ratings sent as text\<close>

text \<open>
  A form body holds its rating as text. The text \<open>3\<close> reads as the number 3 and is
  stored; the text \<open>5\<close> reads as 5 and is refused.
\<close>

lemma digit_to_number:
  "str_to_number ''3'' = Fin 3" "str_to_number ''5'' = Fin 5"
proof -
  have d: "decimal ''3''" "decimal ''5''"
    by (simp_all add: decimal_def is_digit_def digit_of_def)
  have v: "digits_val 10 ''3'' = 3" "digits_val 10 ''5'' = 5"
    by (simp_all add: digits_val_def digit_of_def)
  show "str_to_number ''3'' = Fin 3"
    using decimal_to_number [OF d(1)] round_double_of_nat [of 3] by (simp add: v)
  show "str_to_number ''5'' = Fin 5"
    using decimal_to_number [OF d(2)] round_double_of_nat [of 5] by (simp add: v)
qed

lemma form_rating:
  "post_feedback sample_env
     (fields [(''comment'', JStr ''Bagus''), (''rating'', JStr ''3'')]) empty_world
   = (empty_world
        \<lparr>feedbacks := [\<lparr>f_id = 1, f_comment = JStr ''Bagus'', f_rating = JStr ''3''\<rparr>],
         calls := [Insert TFeedback]\<rparr>,
      respond 201 (FeedbackCreated
        \<lparr>f_id = 1, f_comment = JStr ''Bagus'', f_rating = JStr ''3''\<rparr>))
   \<and> post_feedback sample_env
       (fields [(''comment'', JStr ''Bagus''), (''rating'', JStr ''5'')]) empty_world
     = (empty_world, respond 400 (Msg ''Rating harus antara 1-4''))"
proof -
  show ?thesis
    using digit_to_number
    by (simp add: post_feedback_def fields_def sample_env_def empty_world_def attempt_def Let_def)
qed

end
